theory Spec2Isabelle
  imports Main "HOL-Library.AList" "HOL-Library.Sublist"
begin

section \<open>Values of the host language\<close>

text \<open>
  The catalog handler (\<^verbatim>\<open>src/api/catalog.ts\<close>) works on untyped JSON values: request
  bodies, backend responses, cached outputs. They are modelled by one datatype. An object
  is an association list in insertion order with distinct keys (the runtime lists
  integer-like keys first; no property below depends on the order of keys); a number is
  an integer (fractions do not occur in the properties studied here); a string is a list
  of ASCII characters. The properties a fixed name reads are the own properties of the
  value; where the source reads a computed key of a plain object, the properties
  inherited from \<^verbatim>\<open>Object.prototype\<close> are modelled too (\<open>Object_prototype\<close> below).
\<close>

datatype json =
    JUndefined
  | JNull
  | JBool bool
  | JNum int
  | JStr string
  | JArr "json list"
  | JObj "(string \<times> json) list"

datatype error =
    Error string
  | TypeError
  | Failure string

text \<open>
  \<open>Error msg\<close> is \<^verbatim>\<open>throw new Error(msg)\<close>, \<open>TypeError\<close> is what the runtime raises
  when a property of \<^verbatim>\<open>undefined\<close> or \<^verbatim>\<open>null\<close> is read or a non-function is called,
  \<open>Failure\<close> is an exception or a rejected promise of an external collaborator.
\<close>

definition bind_e :: "error + 'a \<Rightarrow> ('a \<Rightarrow> error + 'b) \<Rightarrow> error + 'b" where
  "bind_e m f = (case m of Inl e \<Rightarrow> Inl e | Inr x \<Rightarrow> f x)"

fun mapM_e :: "('a \<Rightarrow> error + 'b) \<Rightarrow> 'a list \<Rightarrow> error + 'b list" where
  "mapM_e f [] = Inr []"
| "mapM_e f (x # xs) =
     bind_e (f x) (\<lambda>y. bind_e (mapM_e f xs) (\<lambda>ys. Inr (y # ys)))"

subsection \<open>Numbers and strings\<close>

function show_nat :: "nat \<Rightarrow> string" where
  "show_nat n =
     (if n < 10 then [''0123456789'' ! n]
      else show_nat (n div 10) @ [''0123456789'' ! (n mod 10)])"
  by pat_completeness auto
termination
  by (relation "measure id") auto

declare show_nat.simps [simp del]

definition show_int :: "int \<Rightarrow> string" where
  "show_int i = (if i < 0 then CHR ''-'' # show_nat (nat (- i)) else show_nat (nat i))"

text \<open>
  String conversion, as a template literal \<^verbatim>\<open>`${v}`\<close> performs it. \<open>plainText\<close> is
  the conversion of \<^verbatim>\<open>undefined\<close>, \<^verbatim>\<open>null\<close>, a boolean, a string and a safe integer
  (of magnitude at most \<^verbatim>\<open>Number.MAX_SAFE_INTEGER\<close>, which prints with all its digits).
  The conversion of any other value (a larger number, whose digits are rounded or written
  with an exponent; an array; an object, where it can raise) is left to the runtime,
  a parameter \<open>rt\<close>.
\<close>

fun plainText :: "json \<Rightarrow> string option" where
  "plainText JUndefined = Some ''undefined''"
| "plainText JNull = Some ''null''"
| "plainText (JBool b) = Some (if b then ''true'' else ''false'')"
| "plainText (JNum i) = (if \<bar>i\<bar> \<le> 9007199254740991 then Some (show_int i) else None)"
| "plainText (JStr s) = Some s"
| "plainText (JArr xs) = None"
| "plainText (JObj fs) = None"

definition toString :: "(json \<Rightarrow> error + string) \<Rightarrow> json \<Rightarrow> error + string" where
  "toString rt v = (case plainText v of Some s \<Rightarrow> Inr s | None \<Rightarrow> rt v)"

text \<open>\<^verbatim>\<open>c.toUpperCase()\<close> on one ASCII character.\<close>

definition toUpperCase :: "char \<Rightarrow> char" where
  "toUpperCase c =
     (case map_of (zip ''abcdefghijklmnopqrstuvwxyz'' ''ABCDEFGHIJKLMNOPQRSTUVWXYZ'') c of
        Some u \<Rightarrow> u
      | None \<Rightarrow> c)"

text \<open>\<^verbatim>\<open>s.split(c)\<close> with a one-character separator: never the empty list.\<close>

fun split_on :: "char \<Rightarrow> string \<Rightarrow> string list" where
  "split_on c [] = [[]]"
| "split_on c (x # xs) =
     (if x = c then [] # split_on c xs
      else (case split_on c xs of
              w # ws \<Rightarrow> (x # w) # ws
            | [] \<Rightarrow> [[x]]))"

text \<open>\<^verbatim>\<open>s.indexOf(p)\<close> on strings and \<^verbatim>\<open>xs.indexOf(x)\<close> on arrays; \<open>-1\<close> when absent.\<close>

fun indexOf :: "string \<Rightarrow> string \<Rightarrow> int" where
  "indexOf [] p = (if p = [] then 0 else - 1)"
| "indexOf (c # s) p =
     (if take (length p) (c # s) = p then 0
      else (let r = indexOf s p in if r < 0 then - 1 else r + 1))"

fun array_indexOf :: "'a list \<Rightarrow> 'a \<Rightarrow> int" where
  "array_indexOf [] x = - 1"
| "array_indexOf (y # ys) x =
     (if y = x then 0
      else (let r = array_indexOf ys x in if r < 0 then - 1 else r + 1))"

subsection \<open>Properties of values\<close>

fun truthy :: "json \<Rightarrow> bool" where
  "truthy JUndefined = False"
| "truthy JNull = False"
| "truthy (JBool b) = b"
| "truthy (JNum i) = (i \<noteq> 0)"
| "truthy (JStr s) = (s \<noteq> [])"
| "truthy (JArr xs) = True"
| "truthy (JObj fs) = True"

fun nullish :: "json \<Rightarrow> bool" where
  "nullish JUndefined = True"
| "nullish JNull = True"
| "nullish v = False"

text \<open>
  The own enumerable properties of a value, in the order of \<^verbatim>\<open>Object.keys\<close>: the fields
  of an object, the indices of an array or of a string.
\<close>

fun entries :: "json \<Rightarrow> (string \<times> json) list" where
  "entries (JObj fs) = fs"
| "entries (JArr xs) = zip (map show_nat [0..<length xs]) xs"
| "entries (JStr s) = zip (map show_nat [0..<length s]) (map (\<lambda>c. JStr [c]) s)"
| "entries v = []"

text \<open>
  \<open>property v k\<close> is \<^verbatim>\<open>v[k]\<close> for a value \<open>v\<close> that is neither \<^verbatim>\<open>undefined\<close> nor
  \<^verbatim>\<open>null\<close>; \<open>getp\<close> is the same read with the \<open>TypeError\<close> of the other case.
\<close>

definition property :: "json \<Rightarrow> string \<Rightarrow> json" where
  "property v k =
     (case map_of (entries v) k of
        Some x \<Rightarrow> x
      | None \<Rightarrow>
          (if k = ''length'' then
             (case v of
                JArr xs \<Rightarrow> JNum (int (length xs))
              | JStr s \<Rightarrow> JNum (int (length s))
              | _ \<Rightarrow> JUndefined)
           else JUndefined))"

definition getp :: "json \<Rightarrow> string \<Rightarrow> error + json" where
  "getp v k = (if nullish v then Inl TypeError else Inr (property v k))"

text \<open>
  \<^verbatim>\<open>delete v[k]\<close>: removes the field of an object, does nothing on another value, raises
  on \<^verbatim>\<open>undefined\<close> and \<^verbatim>\<open>null\<close>.
\<close>

definition delp :: "json \<Rightarrow> string \<Rightarrow> error + json" where
  "delp v k =
     (case v of
        JUndefined \<Rightarrow> Inl TypeError
      | JNull \<Rightarrow> Inl TypeError
      | JObj fs \<Rightarrow> Inr (JObj (AList.delete k fs))
      | _ \<Rightarrow> Inr v)"

text \<open>
  \<^verbatim>\<open>v[k] = x\<close> in a module (strict mode): an existing field keeps its place, a new one
  goes last; a primitive refuses the write. A named property written on an array is not
  part of its JSON value.
\<close>

definition setp :: "json \<Rightarrow> string \<Rightarrow> json \<Rightarrow> error + json" where
  "setp v k x =
     (case v of
        JObj fs \<Rightarrow> Inr (JObj (AList.update k x fs))
      | JArr xs \<Rightarrow> Inr v
      | _ \<Rightarrow> Inl TypeError)"

text \<open>\<^verbatim>\<open>v.map(f)\<close>: defined on arrays only.\<close>

definition js_map :: "(json \<Rightarrow> error + json) \<Rightarrow> json \<Rightarrow> error + json" where
  "js_map f v =
     (case v of
        JArr xs \<Rightarrow> bind_e (mapM_e f xs) (\<lambda>ys. Inr (JArr ys))
      | _ \<Rightarrow> Inl TypeError)"

text \<open>
  \<^verbatim>\<open>Object.assign(target, {[k]: x})\<close>: raises on \<^verbatim>\<open>undefined\<close> and \<^verbatim>\<open>null\<close>, writes
  the field of an object; on another value the result is a wrapper whose JSON value is
  the value itself.
\<close>

definition Object_assign :: "json \<Rightarrow> string \<Rightarrow> json \<Rightarrow> error + json" where
  "Object_assign target k x =
     (case target of
        JUndefined \<Rightarrow> Inl TypeError
      | JNull \<Rightarrow> Inl TypeError
      | JObj fs \<Rightarrow> Inr (JObj (AList.update k x fs))
      | _ \<Rightarrow> Inr target)"

text \<open>
  \<^verbatim>\<open>[...new Set(xs)]\<close>: the first occurrence of each element, in order. Two primitives
  are the same element when they are equal; an object or an array of a parsed response
  is the same element as itself only.
\<close>

fun primitive :: "json \<Rightarrow> bool" where
  "primitive (JArr xs) = False"
| "primitive (JObj fs) = False"
| "primitive v = True"

fun uniq :: "json list \<Rightarrow> json list" where
  "uniq [] = []"
| "uniq (x # xs) = x # uniq (filter (\<lambda>y. \<not> (primitive x \<and> y = x)) xs)"

section \<open>Attribute enrichment\<close>

text \<open>
  \<^verbatim>\<open>key.replace(/^(agg_terms_|agg_range_)|(_options)$/g, '')\<close>. The global replace scans
  the key from the left. At position 0 the first alternative is tried first; it consumes
  one of the two prefixes (both have 10 characters). At every position the second
  alternative matches exactly when what is left of the key is \<^verbatim>\<open>_options\<close>:
  \<open>scan_options\<close> is that scan.
\<close>

fun scan_options :: "string \<Rightarrow> string" where
  "scan_options [] = []"
| "scan_options (c # s) = (if c # s = ''_options'' then [] else c # scan_options s)"

definition attributeCode :: "string \<Rightarrow> string" where
  "attributeCode key =
     (if take 10 key = ''agg_terms_'' \<or> take 10 key = ''agg_range_''
      then scan_options (drop 10 key)
      else scan_options key)"

text \<open>
  The same in the words of the specification: strip a recognized prefix, then strip the
  \<^verbatim>\<open>_options\<close> suffix.
\<close>

definition strip_prefix :: "string \<Rightarrow> string" where
  "strip_prefix key =
     (if prefix ''agg_terms_'' key then drop (length ''agg_terms_'') key
      else if prefix ''agg_range_'' key then drop (length ''agg_range_'') key
      else key)"

definition strip_suffix :: "string \<Rightarrow> string" where
  "strip_suffix key =
     (if suffix ''_options'' key then take (length key - length ''_options'') key else key)"

text \<open>
  \<^verbatim>\<open>getProductsAttributesMetadata\<close>, lines 30 to 45: the parameter handed to the
  attribute service. \<open>has_buckets\<close> is the filter
  \<^verbatim>\<open>body.aggregations[key].buckets.length\<close>, \<open>bucketsIds\<close> is
  \<^verbatim>\<open>body.aggregations[key].buckets.map(bucket => bucket.key)\<close>, \<open>reduce_acc\<close> is the
  reduction over the keys that are left, with the own properties of the accumulator
  \<^verbatim>\<open>acc\<close> as an association list from attribute code to bucket identifiers.
\<close>

definition has_buckets :: "json \<Rightarrow> error + bool" where
  "has_buckets agg =
     bind_e (getp agg ''buckets'') (\<lambda>b.
     bind_e (getp b ''length'') (\<lambda>l. Inr (truthy l)))"

fun filterM_e :: "('a \<Rightarrow> error + bool) \<Rightarrow> 'a list \<Rightarrow> error + 'a list" where
  "filterM_e p [] = Inr []"
| "filterM_e p (x # xs) =
     bind_e (p x) (\<lambda>b. bind_e (filterM_e p xs) (\<lambda>ys. Inr (if b then x # ys else ys)))"

definition bucketsIds :: "json \<Rightarrow> error + json list" where
  "bucketsIds agg =
     bind_e (getp agg ''buckets'') (\<lambda>b.
       case b of
         JArr bs \<Rightarrow> mapM_e (\<lambda>bucket. getp bucket ''key'') bs
       | _ \<Rightarrow> Inl TypeError)"

type_synonym AttributeListParam = "(string \<times> json list) list"

text \<open>
  The accumulator starts as the plain object \<^verbatim>\<open>{}\<close>, so \<^verbatim>\<open>acc[attributeCode]\<close> also
  finds the properties every object inherits. Each of them is truthy (a function, or the
  prototype itself for \<^verbatim>\<open>__proto__\<close>) and not iterable: for such a code line 37 is
  skipped and the spread of line 42 raises a \<open>TypeError\<close>.
\<close>

definition Object_prototype :: "string list" where
  "Object_prototype =
     [''constructor'', ''__defineGetter__'', ''__defineSetter__'', ''hasOwnProperty'',
      ''__lookupGetter__'', ''__lookupSetter__'', ''isPrototypeOf'',
      ''propertyIsEnumerable'', ''toString'', ''valueOf'', ''__proto__'',
      ''toLocaleString'']"

fun reduce_acc ::
  "AttributeListParam \<Rightarrow> (string \<times> json) list \<Rightarrow> error + AttributeListParam" where
  "reduce_acc acc [] = Inr acc"
| "reduce_acc acc ((key, agg) # rest) =
     bind_e (bucketsIds agg) (\<lambda>ids.
       let code = attributeCode key in
       case map_of acc code of
         Some old \<Rightarrow> reduce_acc (AList.update code (uniq (old @ ids)) acc) rest
       | None \<Rightarrow>
           if code \<in> set Object_prototype then Inl TypeError
           else reduce_acc (AList.update code (uniq ids) acc) rest)"

definition attributeListParam :: "json \<Rightarrow> error + AttributeListParam" where
  "attributeListParam body =
     bind_e (getp body ''aggregations'') (\<lambda>aggs.
       if nullish aggs then Inl TypeError
       else bind_e (filterM_e (\<lambda>(key, agg). has_buckets agg) (entries aggs))
              (reduce_acc []))"

section \<open>Response formatting\<close>

text \<open>
  \<^verbatim>\<open>_outputFormatter\<close>, lines 53 to 67. The body is updated in place by the source; the
  model returns the updated body. \<open>flatten_hit\<close> is the function mapped over the hit
  list.
\<close>

definition flatten_hit :: "json \<Rightarrow> error + json" where
  "flatten_hit hit =
     bind_e (getp hit ''_source'') (\<lambda>src.
     bind_e (getp hit ''_score'') (\<lambda>score.
       Object_assign src ''_score'' score))"

definition outputFormatter :: "json \<Rightarrow> json \<Rightarrow> error + json" where
  "outputFormatter responseBody format =
     (if format = JStr ''compact'' then
        bind_e (delp responseBody ''took'') (\<lambda>r1.
        bind_e (delp r1 ''timed_out'') (\<lambda>r2.
        bind_e (delp r2 ''_shards'') (\<lambda>r3.
          if truthy (property r3 ''hits'') then
            bind_e (delp (property r3 ''hits'') ''max_score'') (\<lambda>hits.
            bind_e (setp r3 ''total'' (property hits ''total'')) (\<lambda>r4.
            bind_e (js_map flatten_hit (property hits ''hits'')) (\<lambda>flat.
              setp r4 ''hits'' flat)))
          else Inr r3)))
      else Inr responseBody)"

section \<open>The request handler\<close>

text \<open>
  The configuration fields the handler reads: \<^verbatim>\<open>config.elasticsearch.indices\<close>,
  \<^verbatim>\<open>config.server.useOutputCache\<close>, \<^verbatim>\<open>config.elasticsearch.user\<close> and
  \<^verbatim>\<open>password\<close>, \<^verbatim>\<open>config.authHashSecret\<close>, \<^verbatim>\<open>config.objHashSecret\<close>. The request
  fields it reads: \<^verbatim>\<open>req.method\<close>, \<^verbatim>\<open>req.url\<close>, \<^verbatim>\<open>req.body\<close> and three entries of
  \<^verbatim>\<open>req.query\<close>.
\<close>

record config =
  indices :: "string list"
  useOutputCache :: bool
  user :: json
  password :: json
  authHashSecret :: json
  objHashSecret :: json

record request =
  req_method :: string
  url :: string
  body :: json
  query_request :: json
  query_request_format :: json
  query_response_format :: json

text \<open>
  What the handler does to the outside, in the order in which it does it. \<open>Uncaught\<close> is
  an exception that leaves the callback of the backend request, \<open>ConsoleError\<close> a
  rejection caught by a \<^verbatim>\<open>.catch(err => console.error(err))\<close> of the handler. The
  value of a \<open>CacheSet\<close> is the response body at the time of the call. The write is not
  awaited: the handler goes on at once, and when the promise of \<^verbatim>\<open>cache.set\<close> is
  rejected, line 18 logs the rejection at a later time that the handler does not control.
  That log has no place of its own in the trace; the last argument of \<open>CacheSet\<close> is the
  rejection that will be logged, if there is one.
\<close>

datatype event =
    CacheGet string
  | SetHeader string string
  | ConsoleLog
  | ConsoleError error
  | BackendRequest string string json json
  | Process string json json
  | CacheSet string json "string list" "error option"
  | AttributeList AttributeListParam string
  | ResJson json
  | Uncaught error

text \<open>
  The collaborators that are not in this file of the repository, as parameters: the cache
  instance (\<open>cache\<close> tells whether the imported instance is set), the hash and the
  serializer of the fingerprint, \<^verbatim>\<open>JSON.parse(decodeURIComponent(_))\<close>, the query
  builder, the resolution of the backend address, the token decoder, the backend (the
  response body its callback receives), the processor factory, the attribute service.
  A collaborator that can throw or reject returns a sum; the hash, the serializer and the
  resolution of the address are taken to return. The cache and the processors return
  promises, as the source expects of them (it calls \<^verbatim>\<open>.then\<close> and \<^verbatim>\<open>.catch\<close> on what they
  return): for them \<open>Inl\<close> is the rejection of the promise. Two conversions of the runtime are
  parameters as well, on the values for which they are not written out here:
  \<open>runtime_ToString\<close> (see \<open>toString\<close>) and \<open>runtime_exceeds10\<close> (see \<open>gt10\<close>).
\<close>

record env =
  cache :: bool
  cache_get :: "string \<Rightarrow> error + json"
  cache_set :: "string \<Rightarrow> json \<Rightarrow> string list \<Rightarrow> error + unit"
  sha3_224 :: "string \<Rightarrow> string"
  JSON_stringify :: "json \<Rightarrow> string"
  JSON_parse_decodeURIComponent :: "json \<Rightarrow> error + json"
  buildQueryBodyFromSearchQuery :: "json \<Rightarrow> error + json"
  adjustBackendProxyUrl :: "request \<Rightarrow> string \<Rightarrow> string \<Rightarrow> config \<Rightarrow> string"
  jwt_decode :: "json \<Rightarrow> json \<Rightarrow> error + json"
  backend :: "string \<Rightarrow> string \<Rightarrow> json \<Rightarrow> json \<Rightarrow> json"
  getAdapter :: "string \<Rightarrow> (json \<Rightarrow> json \<Rightarrow> error + json) option"
  AttributeService_list :: "AttributeListParam \<Rightarrow> string \<Rightarrow> error + json"
  AttributeService_transformToMetadata :: "json \<Rightarrow> error + json"
  runtime_ToString :: "json \<Rightarrow> error + string"
  runtime_exceeds10 :: "json \<Rightarrow> error + bool"

subsection \<open>Validating and normalizing, lines 70 to 134\<close>

text \<open>
  Lines 79 to 84: the request body as received, \<^verbatim>\<open>req.body\<close> or, for a GET with a
  \<^verbatim>\<open>request\<close> parameter, the parameter parsed. Lines 86 to 88: the body the handler
  goes on with, translated by the query builder when the request asks for it.
\<close>

definition readBody :: "env \<Rightarrow> request \<Rightarrow> error + json" where
  "readBody env req =
     (if req_method req = ''GET'' \<and> truthy (query_request req)
      then JSON_parse_decodeURIComponent env (query_request req)
      else Inr (body req))"

definition parseRequestBody :: "env \<Rightarrow> request \<Rightarrow> error + json" where
  "parseRequestBody env req =
     bind_e (readBody env req)
       (\<lambda>b. if query_request_format req = JStr ''search-query''
            then buildQueryBodyFromSearchQuery env b
            else Inr b)"

text \<open>Lines 91 to 107: index name and entity type from the segments of the URL.\<close>

definition parseUrl :: "config \<Rightarrow> request \<Rightarrow> error + string \<times> string" where
  "parseUrl cfg req =
     (let urlSegments = split_on CHR ''/'' (url req) in
      if length urlSegments < 2 then
        Inl (Error ''No index name given in the URL. Please do use following URL format: /api/catalog/<index_name>/<entity_type>_search'')
      else
        let index = urlSegments ! 1;
            entity = (if length urlSegments > 2 then urlSegments ! 2 else [])
        in if array_indexOf (indices cfg) index < 0 then
             Inl (Error ''Invalid / inaccessible index name given in the URL. Please do use following URL format: /api/catalog/<index_name>/_search'')
           else if indexOf (urlSegments ! (length urlSegments - 1)) ''_search'' \<noteq> 0 then
             Inl (Error ''Please do use following URL format: /api/catalog/<index_name>/_search'')
           else Inr (index, entity))"

text \<open>
  Lines 111 to 122: the group identifier, and the body without the two fields.
  \<open>gt10\<close> is the comparison \<^verbatim>\<open>userToken.length > 10\<close>, which converts its left side to
  a number: a number is compared as it is, \<^verbatim>\<open>undefined\<close> is not a number, \<^verbatim>\<open>null\<close>
  and the booleans are 0 and 1. The conversion of a string, an array or an object (it can
  raise) is left to the runtime.
\<close>

definition gt10 :: "env \<Rightarrow> json \<Rightarrow> error + bool" where
  "gt10 env v =
     (case v of
        JNum l \<Rightarrow> Inr (l > 10)
      | JUndefined \<Rightarrow> Inr False
      | JNull \<Rightarrow> Inr False
      | JBool b \<Rightarrow> Inr False
      | _ \<Rightarrow> runtime_exceeds10 env v)"

definition extractGroupId :: "config \<Rightarrow> env \<Rightarrow> json \<Rightarrow> error + json \<times> json" where
  "extractGroupId cfg env b =
     bind_e (getp b ''groupToken'') (\<lambda>userToken.
     bind_e (if truthy userToken then gt10 env (property userToken ''length'')
             else Inr False) (\<lambda>long.
     bind_e
       (if long then
          bind_e (jwt_decode env userToken
                    (if truthy (authHashSecret cfg) then authHashSecret cfg
                     else objHashSecret cfg)) (\<lambda>decodeToken.
          bind_e (getp decodeToken ''group_id'') (\<lambda>g.
            Inr (if truthy g then g else JNull)))
        else if truthy (property b ''groupId'') then Inr (property b ''groupId'')
        else Inr JNull) (\<lambda>g.
     bind_e (delp b ''groupToken'') (\<lambda>b1.
     bind_e (delp b1 ''groupId'') (\<lambda>b2. Inr (g, b2))))))"

record normalized =
  requestBody :: json
  responseFormat :: json
  indexName :: string
  entityType :: string
  elasticBackendUrl :: string
  groupId :: json
  auth :: json
  reqHash :: string

definition normalizeRequest :: "config \<Rightarrow> env \<Rightarrow> request \<Rightarrow> error + normalized" where
  "normalizeRequest cfg env req =
     (if \<not> (req_method req = ''GET'' \<or> req_method req = ''POST'' \<or> req_method req = ''OPTIONS'') then
        Inl (Error (''ERROR: '' @ req_method req @ '' request method is not supported.''))
      else
        bind_e (parseRequestBody env req) (\<lambda>b.
        bind_e (parseUrl cfg req) (\<lambda>(index, entity).
        bind_e (extractGroupId cfg env b) (\<lambda>(g, b').
          Inr \<lparr> requestBody = b',
                responseFormat =
                  (if truthy (query_response_format req) then query_response_format req
                   else JStr ''standard''),
                indexName = index,
                entityType = entity,
                elasticBackendUrl = adjustBackendProxyUrl env req index entity cfg,
                groupId = g,
                auth =
                  (if truthy (user cfg) \<or> truthy (password cfg)
                   then JObj [(''user'', user cfg), (''pass'', password cfg)]
                   else JNull),
                reqHash = sha3_224 env (JSON_stringify env b' @ url req) \<rparr>))))"

subsection \<open>The backend path, lines 135 to 184\<close>

text \<open>
  \<^verbatim>\<open>_cacheStorageHandler\<close>, lines 11 to 21: the call of \<^verbatim>\<open>cache.set\<close>, which is not
  awaited, with the rejection line 18 will log later, if the write is rejected.
\<close>

definition cacheStorageHandler ::
  "config \<Rightarrow> env \<Rightarrow> json \<Rightarrow> string \<Rightarrow> string list \<Rightarrow> event list" where
  "cacheStorageHandler cfg env result hash tags =
     (if useOutputCache cfg \<and> cache env then
        [CacheSet (''api:'' @ hash) result tags
           (case cache_set env (''api:'' @ hash) result tags of
              Inl e \<Rightarrow> Some e
            | Inr u \<Rightarrow> None)]
      else [])"

text \<open>
  Lines 145 to 154: the tags of a response, from the entity type and the hit list
  \<^verbatim>\<open>_resBody.hits.hits\<close> as the backend returned it. \<open>itemTags\<close> is the body of the
  callback mapped over the hits.
\<close>

definition itemTags :: "env \<Rightarrow> string \<Rightarrow> json \<Rightarrow> error + string list" where
  "itemTags env tagPrefix item =
     bind_e (getp item ''_source'') (\<lambda>src.
     bind_e (getp src ''id'') (\<lambda>i.
       if truthy i
       then bind_e (toString (runtime_ToString env) i) (\<lambda>s. Inr [tagPrefix @ s])
       else Inr []))"

definition computeTags :: "config \<Rightarrow> env \<Rightarrow> string \<Rightarrow> json \<Rightarrow> error + string list" where
  "computeTags cfg env entity hits =
     (if useOutputCache cfg \<and> cache env then
        (case entity of
           [] \<Rightarrow> Inl TypeError
         | c # cs \<Rightarrow>
             (case hits of
                JArr items \<Rightarrow>
                  bind_e (mapM_e (itemTags env [toUpperCase c]) items) (\<lambda>tss.
                    Inr (entity # concat tss))
              | _ \<Rightarrow> Inl TypeError))
      else Inr [])"

text \<open>Lines 156 to 158: the processor of the entity type, or the default one.\<close>

definition resolveProcessor ::
  "env \<Rightarrow> string \<Rightarrow> (string \<times> (json \<Rightarrow> json \<Rightarrow> error + json)) option" where
  "resolveProcessor env entity =
     (case getAdapter env entity of
        Some p \<Rightarrow> Some (entity, p)
      | None \<Rightarrow>
          (case getAdapter env ''default'' of
             Some p \<Rightarrow> Some (''default'', p)
           | None \<Rightarrow> None))"

text \<open>\<^verbatim>\<open>_resBody.hits.hits = result\<close>.\<close>

definition set_hits :: "json \<Rightarrow> json \<Rightarrow> error + json" where
  "set_hits resBody result =
     bind_e (getp resBody ''hits'') (\<lambda>h.
     bind_e (setp h ''hits'' result) (\<lambda>h'.
       setp resBody ''hits'' h'))"

text \<open>\<^verbatim>\<open>res.json(_outputFormatter(_resBody, responseFormat))\<close> inside a promise chain.\<close>

definition respond :: "normalized \<Rightarrow> json \<Rightarrow> event list" where
  "respond n resBody =
     (case outputFormatter resBody (responseFormat n) of
        Inl e \<Rightarrow> [ConsoleError e]
      | Inr out \<Rightarrow> [ResJson out])"

text \<open>
  Lines 163 to 167: the enrichment of a product response and the response, which follow
  the cache write.
\<close>

definition enrichThenRespond :: "env \<Rightarrow> normalized \<Rightarrow> json \<Rightarrow> event list" where
  "enrichThenRespond env n rb =
     (if truthy (property rb ''aggregations'') then
        (case attributeListParam rb of
           Inl e \<Rightarrow> [ConsoleError e]
         | Inr param \<Rightarrow>
             AttributeList param (indexName n) #
             (case AttributeService_list env param (indexName n) of
                Inl e \<Rightarrow> [ConsoleError e]
              | Inr attributeList \<Rightarrow>
                  (case bind_e (js_map (AttributeService_transformToMetadata env)
                                  attributeList)
                          (setp rb ''attribute_metadata'') of
                     Inl e \<Rightarrow> [ConsoleError e]
                   | Inr rb' \<Rightarrow> respond n rb')))
      else respond n rb)"

text \<open>Lines 161 to 167: what follows the processor of a product request.\<close>

definition productThen ::
  "config \<Rightarrow> env \<Rightarrow> normalized \<Rightarrow> json \<Rightarrow> string list \<Rightarrow> json \<Rightarrow> event list" where
  "productThen cfg env n resBody tagsArray result =
     (case set_hits resBody result of
        Inl e \<Rightarrow> [ConsoleError e]
      | Inr rb \<Rightarrow>
          cacheStorageHandler cfg env rb (reqHash n) tagsArray @ enrichThenRespond env n rb)"

text \<open>Lines 173 to 175: what follows the processor of another request.\<close>

definition otherThen ::
  "config \<Rightarrow> env \<Rightarrow> normalized \<Rightarrow> json \<Rightarrow> string list \<Rightarrow> json \<Rightarrow> event list" where
  "otherThen cfg env n resBody tagsArray result =
     (case set_hits resBody result of
        Inl e \<Rightarrow> [ConsoleError e]
      | Inr rb \<Rightarrow> cacheStorageHandler cfg env rb (reqHash n) tagsArray @ respond n rb)"

text \<open>\<^verbatim>\<open>_resBody && _resBody.hits && _resBody.hits.hits\<close>.\<close>

definition has_hits :: "json \<Rightarrow> bool" where
  "has_hits resBody =
     (truthy resBody \<and> truthy (property resBody ''hits'') \<and>
      truthy (property (property resBody ''hits'') ''hits''))"

definition dynamicRequestHandler ::
  "config \<Rightarrow> env \<Rightarrow> request \<Rightarrow> normalized \<Rightarrow> event list" where
  "dynamicRequestHandler cfg env req n =
     (let resBody = backend env (elasticBackendUrl n) (req_method req) (requestBody n) (auth n)
      in BackendRequest (elasticBackendUrl n) (req_method req) (requestBody n) (auth n) #
         (if has_hits resBody then
            (let hits = property (property resBody ''hits'') ''hits'' in
             case computeTags cfg env (entityType n) hits of
               Inl e \<Rightarrow> [Uncaught e]
             | Inr tagsArray \<Rightarrow>
                 (case resolveProcessor env (entityType n) of
                    None \<Rightarrow> [Uncaught TypeError]
                  | Some (name, process) \<Rightarrow>
                      if entityType n = ''product'' then
                        Process name hits (groupId n) #
                          (case process hits (groupId n) of
                             Inl e \<Rightarrow> [ConsoleError e]
                           | Inr result \<Rightarrow> productThen cfg env n resBody tagsArray result)
                      else
                        Process name hits JUndefined #
                          (case process hits JUndefined of
                             Inl e \<Rightarrow> [ConsoleError e]
                           | Inr result \<Rightarrow> otherThen cfg env n resBody tagsArray result)))
          else [ResJson resBody]))"

subsection \<open>The handler, lines 69 to 203\<close>

text \<open>
  The result is \<open>Inl\<close> when the handler throws (its promise is rejected) before anything
  is sent anywhere, else the events of the request.
\<close>

definition handler :: "config \<Rightarrow> env \<Rightarrow> request \<Rightarrow> error + event list" where
  "handler cfg env req =
     bind_e (normalizeRequest cfg env req) (\<lambda>n.
       Inr (if useOutputCache cfg \<and> cache env then
              CacheGet (''api:'' @ reqHash n) #
                (case cache_get env (''api:'' @ reqHash n) of
                   Inl e \<Rightarrow> [ConsoleError e]
                 | Inr output \<Rightarrow>
                     if output \<noteq> JNull then
                       [SetHeader ''X-VS-Cache'' ''Hit'', ResJson output, ConsoleLog]
                     else
                       SetHeader ''X-VS-Cache'' ''Miss'' # ConsoleLog #
                         dynamicRequestHandler cfg env req n)
            else dynamicRequestHandler cfg env req n))"

subsection \<open>Reading a trace\<close>

datatype kind =
    KCacheGet | KSetHeader | KConsoleLog | KConsoleError | KBackendRequest | KProcess
  | KCacheSet | KAttributeList | KResJson | KUncaught

fun kind_of :: "event \<Rightarrow> kind" where
  "kind_of (CacheGet k) = KCacheGet"
| "kind_of (SetHeader h v) = KSetHeader"
| "kind_of ConsoleLog = KConsoleLog"
| "kind_of (ConsoleError e) = KConsoleError"
| "kind_of (BackendRequest u m b a) = KBackendRequest"
| "kind_of (Process name hits g) = KProcess"
| "kind_of (CacheSet k v ts r) = KCacheSet"
| "kind_of (AttributeList p i) = KAttributeList"
| "kind_of (ResJson v) = KResJson"
| "kind_of (Uncaught e) = KUncaught"

definition kinds :: "event list \<Rightarrow> kind list" where
  "kinds t = map kind_of t"

text \<open>The keys the cache is asked for or written under, the tags and the bodies sent.\<close>

fun cacheKeys :: "event list \<Rightarrow> string list" where
  "cacheKeys [] = []"
| "cacheKeys (CacheGet k # t) = k # cacheKeys t"
| "cacheKeys (CacheSet k v ts r # t) = k # cacheKeys t"
| "cacheKeys (e # t) = cacheKeys t"

fun cacheSetTags :: "event list \<Rightarrow> string list list" where
  "cacheSetTags [] = []"
| "cacheSetTags (CacheSet k v ts r # t) = ts # cacheSetTags t"
| "cacheSetTags (e # t) = cacheSetTags t"

fun backendBodies :: "event list \<Rightarrow> json list" where
  "backendBodies [] = []"
| "backendBodies (BackendRequest u m b a # t) = b # backendBodies t"
| "backendBodies (e # t) = backendBodies t"

fun responses :: "event list \<Rightarrow> json list" where
  "responses [] = []"
| "responses (ResJson v # t) = v # responses t"
| "responses (e # t) = responses t"

section \<open>A sample deployment\<close>

text \<open>
  One configuration, one environment and one request, on which the handler is run below.
  The index \<^verbatim>\<open>myindex\<close> is allowed and the output cache is on and empty. The backend
  answers every request with two product hits and one aggregation; the product processor
  keeps the first hit only. The hash is the identity and the serializer writes
  \<^verbatim>\<open>{}\<close> for the empty object, so that fingerprints can be read.
\<close>

definition sample_hit :: "json \<Rightarrow> json" where
  "sample_hit src = JObj [(''_source'', src), (''_score'', JNum 1)]"

definition sample_hits :: json where
  "sample_hits = JArr [sample_hit (JObj [(''id'', JNum 7)]), sample_hit (JObj [(''id'', JNum 9)])]"

definition sample_processed :: json where
  "sample_processed = JArr [sample_hit (JObj [(''id'', JNum 7)])]"

definition sample_process :: "json \<Rightarrow> json \<Rightarrow> error + json" where
  "sample_process hits g = Inr sample_processed"

definition sample_response :: json where
  "sample_response =
     JObj [(''took'', JNum 3), (''timed_out'', JBool False), (''_shards'', JObj []),
           (''hits'', JObj [(''total'', JNum 2), (''max_score'', JNum 1),
              (''hits'', sample_hits)]),
           (''aggregations'',
              JObj [(''agg_terms_color'',
                 JObj [(''buckets'', JArr [JObj [(''key'', JStr ''red'')]])])])]"

definition sample_config :: config where
  "sample_config =
     \<lparr> indices = [''myindex''], useOutputCache = True, user = JUndefined,
       password = JUndefined, authHashSecret = JUndefined,
       objHashSecret = JStr ''secret'' \<rparr>"

definition sample_env :: env where
  "sample_env =
     \<lparr> cache = True,
       cache_get = (\<lambda>k. Inr JNull),
       cache_set = (\<lambda>k v ts. Inr ()),
       sha3_224 = (\<lambda>s. s),
       JSON_stringify = (\<lambda>v. if v = JObj [] then ''{}'' else ''{..}''),
       JSON_parse_decodeURIComponent = (\<lambda>q. Inl (Failure ''SyntaxError'')),
       buildQueryBodyFromSearchQuery = Inr,
       adjustBackendProxyUrl = (\<lambda>req index entity cfg. ''es/'' @ index @ ''/'' @ entity),
       jwt_decode =
         (\<lambda>token secret.
            if token = JStr ''valid.group.token'' then Inr (JObj [(''group_id'', JNum 3)])
            else Inl (Failure ''Signature verification failed'')),
       backend = (\<lambda>uri m b a. sample_response),
       getAdapter =
         (\<lambda>name.
            if name = ''default'' then Some (\<lambda>hits g. Inr hits)
            else if name = ''product''
            then Some sample_process
            else None),
       AttributeService_list = (\<lambda>p index. Inr (JArr [])),
       AttributeService_transformToMetadata = Inr,
       runtime_ToString = (\<lambda>v. Inl TypeError),
       runtime_exceeds10 = (\<lambda>v. Inr False) \<rparr>"

definition sample_request :: request where
  "sample_request =
     \<lparr> req_method = ''GET'', url = ''/myindex/product/_search'',
       body = JObj [(''groupToken'', JStr ''valid.group.token'')],
       query_request = JUndefined, query_request_format = JUndefined,
       query_response_format = JUndefined \<rparr>"

text \<open>The same request after normalization.\<close>

definition sample_normalized :: normalized where
  "sample_normalized =
     \<lparr> requestBody = JObj [], responseFormat = JStr ''standard'',
       indexName = ''myindex'', entityType = ''product'',
       elasticBackendUrl = ''es/myindex/product'', groupId = JNum 3,
       auth = JNull, reqHash = ''{}/myindex/product/_search'' \<rparr>"

text \<open>The same environment with a cache that holds an output, with a cache that cannot
  be read, and with an attribute service that fails.\<close>

definition cache_hit_env :: env where
  "cache_hit_env = sample_env\<lparr>cache_get := (\<lambda>k. Inr (JStr ''cached''))\<rparr>"

definition cache_down_env :: env where
  "cache_down_env =
     sample_env\<lparr>cache_get := (\<lambda>k. Inl (Failure ''cache store unavailable''))\<rparr>"

definition lookup_down_env :: env where
  "lookup_down_env =
     sample_env\<lparr>AttributeService_list := (\<lambda>p i. Inl (Failure ''attribute lookup failed''))\<rparr>"

text \<open>
  The configuration with the output cache off, the request of the end-to-end example of
  the specification, the same request with the entity type and the search operation in
  separate segments, and a request without \<^verbatim>\<open>request\<close> parameter that carries a body.
\<close>

definition cache_off_config :: config where
  "cache_off_config = sample_config\<lparr>useOutputCache := False\<rparr>"

definition claimed_request :: request where
  "claimed_request =
     sample_request\<lparr>url := ''/myindex/product_search?response_format=compact'',
                    query_response_format := JStr ''compact''\<rparr>"

definition compact_request :: request where
  "compact_request =
     sample_request\<lparr>url := ''/myindex/product/_search?response_format=compact'',
                    query_response_format := JStr ''compact''\<rparr>"

definition body_request :: request where
  "body_request = sample_request\<lparr>body := JObj [(''size'', JNum 5)]\<rparr>"

definition empty_request :: request where
  "empty_request = sample_request\<lparr>body := JObj []\<rparr>"





section \<open>Notions used to state the properties\<close>

text \<open>
  The handler computes tags from hits, which carry the item under \<^verbatim>\<open>_source\<close>:
  \<open>source_item src\<close> is the hit of the item \<open>src\<close>.
\<close>

definition source_item :: "json \<Rightarrow> json" where
  "source_item src = JObj [(''_source'', src)]"

text \<open>The three items of the example of the specification, not carried by hits.\<close>

definition literal_items :: json where
  "literal_items = JArr [JObj [(''id'', JStr ''7'')], JObj [(''id'', JStr ''9'')], JObj []]"

text \<open>
  The bucket identifiers an aggregation contributes, when they can be read; an
  aggregations object is \<open>readable\<close> when each of its entries has a bucket list whose
  buckets can be read and whose identifiers are primitive values (strings, numbers).
  \<open>look\<close> is \<^verbatim>\<open>acc[code]\<close>, with the empty list for an absent code.
\<close>

definition bucketKeys :: "json \<Rightarrow> json list" where
  "bucketKeys agg = (case bucketsIds agg of Inr ids \<Rightarrow> ids | Inl e \<Rightarrow> [])"

definition readable :: "(string \<times> json) list \<Rightarrow> bool" where
  "readable aggs =
     (\<forall>(key, agg) \<in> set aggs.
        bucketsIds agg = Inr (bucketKeys agg) \<and> list_all primitive (bucketKeys agg))"

definition look :: "AttributeListParam \<Rightarrow> string \<Rightarrow> json list" where
  "look acc code = (case map_of acc code of None \<Rightarrow> [] | Some ids \<Rightarrow> ids)"

text \<open>
  The aggregations of the example of the specification with one without buckets, and an
  aggregation for an attribute named \<^verbatim>\<open>constructor\<close>.
\<close>

definition bucket :: "json \<Rightarrow> json" where
  "bucket k = JObj [(''key'', k), (''doc_count'', JNum 1)]"

definition constructor_aggregations :: "(string \<times> json) list" where
  "constructor_aggregations =
     [(''agg_terms_constructor'', JObj [(''buckets'', JArr [bucket (JStr ''x'')])])]"

definition color_aggregations :: "(string \<times> json) list" where
  "color_aggregations =
     [(''agg_terms_color'', JObj [(''buckets'', JArr [bucket (JStr ''red''), bucket (JStr ''blue'')])]),
      (''agg_terms_size'', JObj [(''buckets'', JArr [])]),
      (''agg_terms_color_options'',
         JObj [(''buckets'', JArr [bucket (JStr ''blue''), bucket (JStr ''green'')])])]"


section \<open>Basic facts\<close>

lemma bind_e_Inl [simp]: "bind_e (Inl e) f = Inl e"
  by (simp add: bind_e_def)

lemma bind_e_Inr [simp]: "bind_e (Inr x) f = f x"
  by (simp add: bind_e_def)

lemma bind_e_eq_Inr: "bind_e m f = Inr y \<longleftrightarrow> (\<exists>x. m = Inr x \<and> f x = Inr y)"
  by (cases m) auto

lemma array_indexOf_lower: "- 1 \<le> array_indexOf xs x"
  by (induction xs) (auto simp: Let_def)

lemma array_indexOf_neg: "array_indexOf xs x < 0 \<longleftrightarrow> x \<notin> set xs"
proof (induction xs)
  case Nil
  show ?case by simp
next
  case (Cons y ys)
  have "- 1 \<le> array_indexOf ys x" by (rule array_indexOf_lower)
  with Cons show ?case by (auto simp: Let_def)
qed

text \<open>The test \<^verbatim>\<open>s.indexOf(p) !== 0\<close> of line 104 is a prefix test.\<close>

lemma indexOf_lower: "- 1 \<le> indexOf s p"
  by (induction s) (auto simp: Let_def)

lemma indexOf_zero: "indexOf s p = 0 \<longleftrightarrow> prefix p s"
proof (cases s)
  case Nil
  then show ?thesis by auto
next
  case (Cons c t)
  have "- 1 \<le> indexOf t p" by (rule indexOf_lower)
  then have "(let r = indexOf t p in if r < 0 then - 1 else r + 1) \<noteq> 0"
    by (auto simp: Let_def)
  moreover have "take (length p) s = p \<longleftrightarrow> prefix p s"
    by (metis append_take_drop_id prefix_def append_eq_conv_conj prefixE)
  ultimately show ?thesis using Cons by auto
qed

section \<open>Tag computation\<close>

lemma toString_plain: "plainText v = Some s \<Longrightarrow> toString rt v = Inr s"
  by (simp add: toString_def)

lemma mapM_e_itemTags:
  assumes "\<forall>item \<in> set items. \<not> nullish item \<and> \<not> nullish (property item ''_source'') \<and>
             plainText (property (property item ''_source'') ''id'') \<noteq> None"
  shows "mapM_e (itemTags env p) items =
           Inr (map (\<lambda>item. let i = property (property item ''_source'') ''id''
                            in if truthy i
                               then (case plainText i of Some s \<Rightarrow> [p @ s] | None \<Rightarrow> [])
                               else []) items)"
  using assms
  by (induction items) (auto simp: itemTags_def getp_def Let_def toString_def)

lemma otherThen_tags:
  "set (cacheSetTags (otherThen cfg env n resBody tags result)) \<subseteq> {tags}"
  by (auto simp: otherThen_def cacheStorageHandler_def respond_def split: sum.splits)

lemma enrichThenRespond_tags [simp]: "cacheSetTags (enrichThenRespond env n rb) = []"
  by (auto simp: enrichThenRespond_def respond_def split: sum.splits)

lemma cacheSetTags_append [simp]:
  "cacheSetTags (xs @ ys) = cacheSetTags xs @ cacheSetTags ys"
  by (induction xs rule: cacheSetTags.induct) auto

lemma productThen_tags:
  "set (cacheSetTags (productThen cfg env n resBody tags result)) \<subseteq> {tags}"
  by (auto simp: productThen_def cacheStorageHandler_def split: sum.splits)

lemma dynamicRequestHandler_tags:
  assumes "computeTags cfg env (entityType n)
             (property (property (backend env (elasticBackendUrl n) (req_method req)
                (requestBody n) (auth n)) ''hits'') ''hits'') = Inr tags"
  shows "set (cacheSetTags (dynamicRequestHandler cfg env req n)) \<subseteq> {tags}"
  using assms otherThen_tags [of cfg env n _ tags] productThen_tags [of cfg env n _ tags]
  by (auto simp: dynamicRequestHandler_def Let_def split: option.splits sum.splits)

text \<open>
  Claim C7, as stated, fails: on the items \<^verbatim>\<open>{id: "7"}\<close>, \<^verbatim>\<open>{id: "9"}\<close>, \<^verbatim>\<open>{}\<close>
  themselves the tag computation raises a \<open>TypeError\<close>. It reads the identifier of an
  element under \<^verbatim>\<open>_source\<close>: it is written for the hits of the backend, not for items.
\<close>

theorem literal_items_counterexample:
  "computeTags sample_config sample_env ''product'' literal_items = Inl TypeError"
  by code_simp

text \<open>
  Claim C7, amended. With output caching enabled (the flag set and the cache instance
  present), entity type \<^verbatim>\<open>product\<close> and backend hits whose sources are \<^verbatim>\<open>{id: "7"}\<close>,
  \<^verbatim>\<open>{id: "9"}\<close>, \<^verbatim>\<open>{}\<close>, the tags are \<^verbatim>\<open>product\<close>, \<^verbatim>\<open>P7\<close>, \<^verbatim>\<open>P9\<close>. In general,
  for a non-empty entity type and hits that each have a source whose identifier is absent,
  a string, a boolean or a safe integer, the tags are the entity type followed, for each
  hit whose identifier is truthy, by the upper-cased first letter of the entity type and
  the identifier; a hit without identifier adds nothing. With output caching disabled
  there are no tags. The tags of every cache write of the backend path are the tags of
  the hits as the backend returned them.
\<close>

theorem tags_of_items:
  "(useOutputCache cfg \<and> cache env \<longrightarrow>
      computeTags cfg env ''product''
        (JArr [source_item (JObj [(''id'', JStr ''7'')]),
               source_item (JObj [(''id'', JStr ''9'')]),
               source_item (JObj [])])
      = Inr [''product'', ''P7'', ''P9''])
   \<and> (useOutputCache cfg \<and> cache env \<and>
      (\<forall>item \<in> set items. \<not> nullish item \<and> \<not> nullish (property item ''_source'') \<and>
         plainText (property (property item ''_source'') ''id'') \<noteq> None) \<longrightarrow>
      computeTags cfg env (c # cs) (JArr items)
      = Inr ((c # cs) #
             concat (map (\<lambda>item. let i = property (property item ''_source'') ''id''
                                  in if truthy i
                                     then (case plainText i of
                                             Some s \<Rightarrow> [[toUpperCase c] @ s]
                                           | None \<Rightarrow> [])
                                     else [])
                         items)))
   \<and> (\<not> (useOutputCache cfg \<and> cache env) \<longrightarrow> computeTags cfg env entity hits = Inr [])
   \<and> (computeTags cfg env (entityType n)
         (property (property (backend env (elasticBackendUrl n) (req_method req)
            (requestBody n) (auth n)) ''hits'') ''hits'') = Inr tags \<longrightarrow>
      set (cacheSetTags (dynamicRequestHandler cfg env req n)) \<subseteq> {tags})"
proof (intro conjI impI)
  assume "useOutputCache cfg \<and> cache env"
  then show "computeTags cfg env ''product''
        (JArr [source_item (JObj [(''id'', JStr ''7'')]),
               source_item (JObj [(''id'', JStr ''9'')]),
               source_item (JObj [])])
      = Inr [''product'', ''P7'', ''P9'']"
    by (simp add: computeTags_def itemTags_def getp_def property_def source_item_def
        toUpperCase_def toString_def)
next
  assume a: "useOutputCache cfg \<and> cache env \<and>
      (\<forall>item \<in> set items. \<not> nullish item \<and> \<not> nullish (property item ''_source'') \<and>
         plainText (property (property item ''_source'') ''id'') \<noteq> None)"
  then have "mapM_e (itemTags env [toUpperCase c]) items =
      Inr (map (\<lambda>item. let i = property (property item ''_source'') ''id''
                        in if truthy i
                           then (case plainText i of
                                   Some s \<Rightarrow> [[toUpperCase c] @ s]
                                 | None \<Rightarrow> [])
                           else []) items)"
    by (intro mapM_e_itemTags) simp
  with a show "computeTags cfg env (c # cs) (JArr items)
      = Inr ((c # cs) #
             concat (map (\<lambda>item. let i = property (property item ''_source'') ''id''
                                  in if truthy i
                                     then (case plainText i of
                                             Some s \<Rightarrow> [[toUpperCase c] @ s]
                                           | None \<Rightarrow> [])
                                     else [])
                         items))"
    by (simp add: computeTags_def)
next
  assume "\<not> (useOutputCache cfg \<and> cache env)"
  then show "computeTags cfg env entity hits = Inr []"
    by (auto simp: computeTags_def)
next
  assume "computeTags cfg env (entityType n)
         (property (property (backend env (elasticBackendUrl n) (req_method req)
            (requestBody n) (auth n)) ''hits'') ''hits'') = Inr tags"
  then show "set (cacheSetTags (dynamicRequestHandler cfg env req n)) \<subseteq> {tags}"
    by (rule dynamicRequestHandler_tags)
qed

theorem tags_of_items_witness:
  "computeTags sample_config sample_env ''product''
        (JArr [source_item (JObj [(''id'', JStr ''7'')]),
               source_item (JObj [(''id'', JStr ''9'')]),
               source_item (JObj [])])
      = Inr [''product'', ''P7'', ''P9'']
   \<and> computeTags sample_config sample_env ''product''
        (JArr [sample_hit (JObj [(''id'', JNum 7)]), sample_hit (JObj [])])
      = Inr [''product'', ''P7'']
   \<and> computeTags (sample_config\<lparr>useOutputCache := False\<rparr>) sample_env ''product''
        (JArr [source_item (JObj [(''id'', JStr ''7'')])]) = Inr []
   \<and> set (cacheSetTags (dynamicRequestHandler sample_config sample_env sample_request
             sample_normalized)) \<subseteq> {[''product'', ''P7'', ''P9'']}"
proof -
  have t: "computeTags sample_config sample_env (entityType sample_normalized)
         (property (property (backend sample_env (elasticBackendUrl sample_normalized)
            (req_method sample_request) (requestBody sample_normalized)
            (auth sample_normalized)) ''hits'') ''hits'') = Inr [''product'', ''P7'', ''P9'']"
    by code_simp
  show ?thesis
    using tags_of_items [of sample_config sample_env
      "[sample_hit (JObj [(''id'', JNum 7)]), sample_hit (JObj [])]"
      "CHR ''p''" "''roduct''" _ _ sample_normalized sample_request
      "[''product'', ''P7'', ''P9'']"]
    tags_of_items [of "sample_config\<lparr>useOutputCache := False\<rparr>" sample_env
      "[]" "CHR ''p''" "''roduct''" "''product''"
      "JArr [source_item (JObj [(''id'', JStr ''7'')])]"] t
    by (simp add: sample_config_def sample_env_def sample_hit_def property_def toUpperCase_def
      show_int_def show_nat.simps)
qed

text \<open>
  Claim C10. The URL \<^verbatim>\<open>/myindex//_search\<close> passes the checks of the URL with an empty
  entity type. With output caching enabled, the tags of an empty entity type are a
  \<open>TypeError\<close> (the first character of the empty string is \<^verbatim>\<open>undefined\<close>), whatever the
  hits are; so a request with an empty entity type that misses the cache and whose backend
  response has hits ends in an exception that nothing catches, and has no response.
\<close>

theorem empty_entity_type_breaks_tags:
  "(''myindex'' \<in> set (indices cfg) \<and> url req = ''/myindex//_search'' \<longrightarrow>
      parseUrl cfg req = Inr (''myindex'', []))
   \<and> (useOutputCache cfg \<and> cache env \<longrightarrow> computeTags cfg env [] hits = Inl TypeError)
   \<and> (useOutputCache cfg \<and> cache env \<and> normalizeRequest cfg env req = Inr n \<and>
       entityType n = [] \<and> cache_get env (''api:'' @ reqHash n) = Inr JNull \<and>
       has_hits (backend env (elasticBackendUrl n) (req_method req) (requestBody n) (auth n)) \<longrightarrow>
       handler cfg env req =
         Inr [CacheGet (''api:'' @ reqHash n), SetHeader ''X-VS-Cache'' ''Miss'', ConsoleLog,
              BackendRequest (elasticBackendUrl n) (req_method req) (requestBody n) (auth n),
              Uncaught TypeError])"
proof (intro conjI impI)
  assume "''myindex'' \<in> set (indices cfg) \<and> url req = ''/myindex//_search''"
  then show "parseUrl cfg req = Inr (''myindex'', [])"
    by (simp add: parseUrl_def array_indexOf_neg)
next
  assume "useOutputCache cfg \<and> cache env"
  then show "computeTags cfg env [] hits = Inl TypeError"
    by (simp add: computeTags_def)
next
  assume "useOutputCache cfg \<and> cache env \<and> normalizeRequest cfg env req = Inr n \<and>
       entityType n = [] \<and> cache_get env (''api:'' @ reqHash n) = Inr JNull \<and>
       has_hits (backend env (elasticBackendUrl n) (req_method req) (requestBody n) (auth n))"
  then show "handler cfg env req =
         Inr [CacheGet (''api:'' @ reqHash n), SetHeader ''X-VS-Cache'' ''Miss'', ConsoleLog,
              BackendRequest (elasticBackendUrl n) (req_method req) (requestBody n) (auth n),
              Uncaught TypeError]"
    by (simp add: handler_def dynamicRequestHandler_def computeTags_def)
qed

theorem empty_entity_type_breaks_tags_witness:
  "parseUrl sample_config (sample_request\<lparr>url := ''/myindex//_search''\<rparr>)
     = Inr (''myindex'', [])
   \<and> computeTags sample_config sample_env [] (JArr []) = Inl TypeError
   \<and> map_sum id kinds
       (handler sample_config sample_env (sample_request\<lparr>url := ''/myindex//_search''\<rparr>))
     = Inr [KCacheGet, KSetHeader, KConsoleLog, KBackendRequest, KUncaught]"
proof -
  let ?r = "sample_request\<lparr>url := ''/myindex//_search''\<rparr>"
  have n: "normalizeRequest sample_config sample_env ?r =
      Inr \<lparr>requestBody = JObj [], responseFormat = JStr ''standard'',
             indexName = ''myindex'', entityType = [],
             elasticBackendUrl = ''es/myindex/'', groupId = JNum 3,
             auth = JNull, reqHash = ''{}/myindex//_search''\<rparr>"
    by code_simp
  have h: "has_hits sample_response" by code_simp
  show ?thesis
    using empty_entity_type_breaks_tags [of sample_config ?r sample_env "JArr []"
        "\<lparr>requestBody = JObj [], responseFormat = JStr ''standard'',
             indexName = ''myindex'', entityType = [],
             elasticBackendUrl = ''es/myindex/'', groupId = JNum 3,
             auth = JNull, reqHash = ''{}/myindex//_search''\<rparr>"] n h
    by (simp add: sample_config_def sample_env_def sample_request_def kinds_def)
qed

section \<open>Response formatting: properties\<close>

lemma show_nat_digits: "set (show_nat n) \<subseteq> set ''0123456789''"
proof (induction n rule: show_nat.induct)
  case (1 n)
  have d: "''0123456789'' ! k \<in> set ''0123456789''" if "k < 10" for k
    using that by (intro nth_mem) simp
  show ?case
  proof (cases "n < 10")
    case True
    then show ?thesis using d [of n] by (subst show_nat.simps) simp
  next
    case False
    have "n mod 10 < 10" by simp
    with False 1 d [of "n mod 10"] show ?thesis
      by (subst show_nat.simps) simp
  qed
qed

lemma not_index:
  assumes "\<exists>c \<in> set k. c \<notin> set ''0123456789''"
  shows "map_of (zip (map show_nat ns) vs) k = None"
proof -
  have "k \<notin> set (map show_nat ns)"
    using assms show_nat_digits by fastforce
  then have "k \<notin> fst ` set (zip (map show_nat ns) vs)"
    by (auto dest: set_zip_leftD)
  then show ?thesis by (simp add: map_of_eq_None_iff)
qed


lemma array_length: "property (JArr xs) ''length'' = JNum (int (length xs))"
proof -
  have e: "\<exists>c \<in> set ''length''. c \<notin> set ''0123456789''" by simp
  show ?thesis by (simp add: property_def not_index [OF e])
qed

lemma property_JObj: "property (JObj fs) k = (case map_of fs k of None \<Rightarrow> JUndefined | Some v \<Rightarrow> v)"
  by (auto simp: property_def split: option.splits)





section \<open>Attribute enrichment: properties\<close>

lemma take_eq_prefix: "take (length p) s = p \<longleftrightarrow> prefix p s"
  by (metis append_take_drop_id prefix_def append_eq_conv_conj prefixE)

lemma scan_options_suffix:
  "scan_options s =
     (if suffix ''_options'' s then take (length s - length ''_options'') s else s)"
proof -
  define p where "p = ''_options''"
  have len: "length p = 8" by (simp add: p_def)
  have step: "scan_options (c # t) = (if c # t = p then [] else c # scan_options t)" for c t
    unfolding p_def by (rule scan_options.simps)
  have "scan_options s = (if suffix p s then take (length s - length p) s else s)"
  proof (induction s)
    case Nil
    then show ?case using len by (auto simp: suffix_def)
  next
    case (Cons c t)
    show ?case
    proof (cases "c # t = p")
      case True
      have s0: "scan_options (c # t) = []"
        by (subst step) (simp add: True)
      show ?thesis unfolding s0 unfolding True by simp
    next
      case False
      note neq = this
      show ?thesis
      proof (cases "suffix p t")
        case True
        then have "length p \<le> length t" by (rule suffix_length_le)
        then have "take (length (c # t) - length p) (c # t) = c # take (length t - length p) t"
          by (simp add: Suc_diff_le)
        with True neq Cons show ?thesis
          by (simp add: step suffix_Cons del: scan_options.simps)
      next
        case False
        with neq Cons show ?thesis
          by (simp add: step suffix_Cons del: scan_options.simps)
      qed
    qed
  qed
  then show ?thesis unfolding p_def .
qed

lemma attributeCode_strip: "attributeCode key = strip_suffix (strip_prefix key)"
proof -
  have la: "length ''agg_terms_'' = 10" and lb: "length ''agg_range_'' = 10"
    by simp_all
  have a: "take 10 key = ''agg_terms_'' \<longleftrightarrow> prefix ''agg_terms_'' key"
    using take_eq_prefix [of "''agg_terms_''" key] unfolding la .
  have b: "take 10 key = ''agg_range_'' \<longleftrightarrow> prefix ''agg_range_'' key"
    using take_eq_prefix [of "''agg_range_''" key] unfolding lb .
  show ?thesis
    unfolding attributeCode_def strip_prefix_def strip_suffix_def a b scan_options_suffix la lb
    by auto
qed

lemma set_uniq: "set (uniq xs) = set xs"
  by (induction xs rule: uniq.induct) auto

lemma distinct_uniq: "list_all primitive xs \<Longrightarrow> distinct (uniq xs)"
proof (induction xs rule: uniq.induct)
  case 1
  show ?case by simp
next
  case (2 x xs)
  then have "list_all primitive (filter (\<lambda>y. \<not> (primitive x \<and> y = x)) xs)"
    by (simp add: list_all_iff)
  with 2 show ?case by (simp add: set_uniq)
qed

lemma mapM_e_length: "mapM_e f xs = Inr ys \<Longrightarrow> length ys = length xs"
  by (induction xs arbitrary: ys) (auto simp: bind_e_eq_Inr)

lemma has_buckets_of_ids:
  assumes "bucketsIds agg = Inr ids"
  shows "has_buckets agg = Inr (ids \<noteq> [])"
proof -
  from assms obtain b where b: "getp agg ''buckets'' = Inr b"
    by (auto simp: bucketsIds_def bind_e_eq_Inr)
  with assms obtain bs where bs: "b = JArr bs" and m: "mapM_e (\<lambda>bucket. getp bucket ''key'') bs = Inr ids"
    by (cases b) (auto simp: bucketsIds_def)
  from m have "length ids = length bs" by (rule mapM_e_length)
  then have "ids \<noteq> [] \<longleftrightarrow> bs \<noteq> []" by auto
  with b bs show ?thesis
    by (simp add: has_buckets_def getp_def array_length)
qed

lemma filterM_e_has_buckets:
  assumes "readable aggs"
  shows "filterM_e (\<lambda>(key, agg). has_buckets agg) aggs =
           Inr (filter (\<lambda>(key, agg). bucketKeys agg \<noteq> []) aggs)"
  using assms
proof (induction aggs)
  case Nil
  show ?case by simp
next
  case (Cons p ps)
  obtain key agg where p: "p = (key, agg)" by (cases p)
  from Cons.prems p have "bucketsIds agg = Inr (bucketKeys agg)"
    by (simp add: readable_def)
  then have "has_buckets agg = Inr (bucketKeys agg \<noteq> [])" by (rule has_buckets_of_ids)
  moreover from Cons have "filterM_e (\<lambda>(key, agg). has_buckets agg) ps =
           Inr (filter (\<lambda>(key, agg). bucketKeys agg \<noteq> []) ps)"
    by (simp add: readable_def)
  ultimately show ?case using p by simp
qed

lemma set_update_subset: "set (AList.update k v al) \<subseteq> insert (k, v) (set al)"
  by (induction al) auto

lemma reduce_acc_spec:
  assumes "readable rest"
    and "distinct (map fst acc)"
    and "\<forall>(code, ids) \<in> set acc. list_all primitive ids \<and> distinct ids"
    and "\<forall>(key, agg) \<in> set rest. attributeCode key \<notin> set Object_prototype"
  shows "\<exists>param. reduce_acc acc rest = Inr param
     \<and> distinct (map fst param)
     \<and> fst ` set param = fst ` set acc \<union> attributeCode ` fst ` set rest
     \<and> (\<forall>(code, ids) \<in> set param. list_all primitive ids \<and> distinct ids)
     \<and> (\<forall>code. set (look param code) =
           set (look acc code) \<union>
           (\<Union>(key, agg) \<in> set rest. if attributeCode key = code then set (bucketKeys agg) else {}))"
  using assms
proof (induction rest arbitrary: acc)
  case Nil
  then show ?case by simp
next
  case (Cons p rest)
  obtain key agg where p: "p = (key, agg)" by (cases p)
  let ?code = "attributeCode key"
  let ?ids = "bucketKeys agg"
  let ?new = "uniq (look acc ?code @ ?ids)"
  let ?acc = "AList.update ?code ?new acc"
  from Cons.prems(1) p have ids: "bucketsIds agg = Inr ?ids" "list_all primitive ?ids"
    and rest: "readable rest"
    by (simp_all add: readable_def)
  from Cons.prems(4) p have np: "?code \<notin> set Object_prototype"
    and nrest: "\<forall>(key, agg) \<in> set rest. attributeCode key \<notin> set Object_prototype"
    by simp_all
  have step: "reduce_acc acc (p # rest) = reduce_acc ?acc rest"
    using p ids np by (cases "map_of acc ?code") (simp_all add: look_def Let_def)
  have d: "distinct (map fst ?acc)"
    using Cons.prems(2) by (rule distinct_update)
  have old: "list_all primitive (look acc ?code)"
  proof (cases "map_of acc ?code")
    case None
    then show ?thesis by (simp add: look_def)
  next
    case (Some xs)
    then have "(?code, xs) \<in> set acc" by (rule map_of_SomeD)
    with Cons.prems(3) Some show ?thesis by (auto simp: look_def)
  qed
  have both: "list_all primitive (look acc ?code @ ?ids)"
    using old ids(2) by simp
  then have "distinct ?new" by (rule distinct_uniq)
  moreover from both have "list_all primitive ?new"
    by (simp only: list_all_iff set_uniq)
  ultimately have new: "list_all primitive ?new \<and> distinct ?new" by simp
  have "set ?acc \<subseteq> insert (?code, ?new) (set acc)"
    by (rule set_update_subset)
  with new Cons.prems(3) have inv: "\<forall>(code, ids) \<in> set ?acc. list_all primitive ids \<and> distinct ids"
    by blast
  from Cons.IH [OF rest d inv nrest] obtain param where
    ih: "reduce_acc ?acc rest = Inr param
     \<and> distinct (map fst param)
     \<and> fst ` set param = fst ` set ?acc \<union> attributeCode ` fst ` set rest
     \<and> (\<forall>(code, ids) \<in> set param. list_all primitive ids \<and> distinct ids)
     \<and> (\<forall>code. set (look param code) =
           set (look ?acc code) \<union>
           (\<Union>(key, agg) \<in> set rest. if attributeCode key = code then set (bucketKeys agg) else {}))" ..
  note r = ih [THEN conjunct1]
  note dp = ih [THEN conjunct2, THEN conjunct1]
  note keys = ih [THEN conjunct2, THEN conjunct2, THEN conjunct1]
  note pinv = ih [THEN conjunct2, THEN conjunct2, THEN conjunct2, THEN conjunct1]
  note sets = ih [THEN conjunct2, THEN conjunct2, THEN conjunct2, THEN conjunct2]
  have lk: "look ?acc code = (if code = ?code then ?new else look acc code)" for code
    by (simp add: look_def update_conv')
  have keys': "fst ` set param = fst ` set acc \<union> attributeCode ` fst ` set (p # rest)"
    using keys p by (auto simp: dom_update)
  have sets': "set (look param code) =
           set (look acc code) \<union>
           (\<Union>(key, agg) \<in> set (p # rest). if attributeCode key = code then set (bucketKeys agg) else {})" for code
    using sets [rule_format, of code] p by (auto simp: lk set_uniq)
  show ?case
  proof (intro exI conjI allI)
    show "reduce_acc acc (p # rest) = Inr param" using step r by simp
  qed (rule dp keys' pinv sets')+
qed

lemma reduce_acc_prototype:
  assumes "readable rest"
    and "fst ` set acc \<inter> set Object_prototype = {}"
    and "\<exists>(key, agg) \<in> set rest. attributeCode key \<in> set Object_prototype"
  shows "reduce_acc acc rest = Inl TypeError"
  using assms
proof (induction rest arbitrary: acc)
  case Nil
  then show ?case by simp
next
  case (Cons p rest)
  obtain key agg where p: "p = (key, agg)" by (cases p)
  let ?code = "attributeCode key"
  from Cons.prems(1) p have ids: "bucketsIds agg = Inr (bucketKeys agg)"
    and rest: "readable rest"
    by (simp_all add: readable_def)
  show ?case
  proof (cases "?code \<in> set Object_prototype")
    case True
    with Cons.prems(2) have "?code \<notin> fst ` set acc" by blast
    then have "map_of acc ?code = None" by (simp add: map_of_eq_None_iff)
    with True p ids show ?thesis by (simp add: Let_def)
  next
    case False
    with Cons.prems(3) p
    have later: "\<exists>(key, agg) \<in> set rest. attributeCode key \<in> set Object_prototype"
      by auto
    have inv: "fst ` set (AList.update ?code v acc) \<inter> set Object_prototype = {}" for v
      using Cons.prems(2) False by (auto simp: dom_update)
    show ?thesis
      using p ids False Cons.IH [OF rest inv later]
      by (cases "map_of acc ?code") (simp_all add: Let_def)
  qed
qed

lemma readable_filter: "readable aggs \<Longrightarrow> readable (filter P aggs)"
  by (simp add: readable_def)

text \<open>
  For a readable aggregations object none of whose attribute codes (among the
  aggregations with buckets) is the name of an inherited property, the parameter of the
  attribute service exists and has one entry per attribute code of an aggregation with
  buckets, no code twice; the identifiers of a code are the union of the bucket
  identifiers of all the aggregation names with that code, each identifier once. The
  code of a name is the name without a recognized prefix and without the \<^verbatim>\<open>_options\<close>
  suffix. In the example, \<^verbatim>\<open>agg_terms_color\<close> with \<^verbatim>\<open>red\<close>, \<^verbatim>\<open>blue\<close> and
  \<^verbatim>\<open>agg_terms_color_options\<close> with \<^verbatim>\<open>blue\<close>, \<^verbatim>\<open>green\<close> give the code \<^verbatim>\<open>color\<close>
  with \<^verbatim>\<open>red\<close>, \<^verbatim>\<open>blue\<close>, \<^verbatim>\<open>green\<close>, and the aggregation without buckets gives
  nothing.
\<close>

theorem enrichment_merges_buckets:
  "(getp rb ''aggregations'' = Inr (JObj aggs) \<and> readable aggs \<and>
    (\<forall>(key, agg) \<in> set aggs.
       bucketKeys agg \<noteq> [] \<longrightarrow> attributeCode key \<notin> set Object_prototype) \<longrightarrow>
      (\<exists>param. attributeListParam rb = Inr param
         \<and> distinct (map fst param)
         \<and> fst ` set param =
             {attributeCode key | key agg. (key, agg) \<in> set aggs \<and> bucketKeys agg \<noteq> []}
         \<and> (\<forall>(code, ids) \<in> set param.
               distinct ids \<and>
               set ids = (\<Union>(key, agg) \<in> set aggs.
                           if attributeCode key = code then set (bucketKeys agg) else {}))))
   \<and> (\<forall>key. attributeCode key = strip_suffix (strip_prefix key))
   \<and> attributeListParam (JObj [(''aggregations'', JObj color_aggregations)])
       = Inr [(''color'', [JStr ''red'', JStr ''blue'', JStr ''green''])]"
proof (intro conjI impI allI)
  assume a: "getp rb ''aggregations'' = Inr (JObj aggs) \<and> readable aggs \<and>
    (\<forall>(key, agg) \<in> set aggs.
       bucketKeys agg \<noteq> [] \<longrightarrow> attributeCode key \<notin> set Object_prototype)"
  let ?kept = "filter (\<lambda>(key, agg). bucketKeys agg \<noteq> []) aggs"
  have run: "attributeListParam rb = reduce_acc [] ?kept"
    using a by (simp add: attributeListParam_def filterM_e_has_buckets)
  have rk: "readable ?kept" using a by (simp add: readable_filter)
  have nk: "\<forall>(key, agg) \<in> set ?kept. attributeCode key \<notin> set Object_prototype"
    using a by auto
  from reduce_acc_spec [OF rk _ _ nk, of "[]"] obtain param where
    ih: "reduce_acc [] ?kept = Inr param
     \<and> distinct (map fst param)
     \<and> fst ` set param = fst ` set [] \<union> attributeCode ` fst ` set ?kept
     \<and> (\<forall>(code, ids) \<in> set param. list_all primitive ids \<and> distinct ids)
     \<and> (\<forall>code. set (look param code) =
           set (look [] code) \<union>
           (\<Union>(key, agg) \<in> set ?kept. if attributeCode key = code then set (bucketKeys agg) else {}))"
    by auto
  note r = ih [THEN conjunct1]
  note dp = ih [THEN conjunct2, THEN conjunct1]
  note keys = ih [THEN conjunct2, THEN conjunct2, THEN conjunct1]
  note pinv = ih [THEN conjunct2, THEN conjunct2, THEN conjunct2, THEN conjunct1]
  note sets = ih [THEN conjunct2, THEN conjunct2, THEN conjunct2, THEN conjunct2]
  have k: "fst ` set param =
             {attributeCode key | key agg. (key, agg) \<in> set aggs \<and> bucketKeys agg \<noteq> []}"
    unfolding keys by force
  have u: "(\<Union>(key, agg) \<in> set ?kept. if attributeCode key = code then set (bucketKeys agg) else {})
         = (\<Union>(key, agg) \<in> set aggs. if attributeCode key = code then set (bucketKeys agg) else {})"
    for code
    by (auto split: if_splits)
  have s: "distinct ids \<and>
         set ids = (\<Union>(key, agg) \<in> set aggs.
                           if attributeCode key = code then set (bucketKeys agg) else {})"
    if "(code, ids) \<in> set param" for code ids
  proof -
    from that dp have "map_of param code = Some ids" by simp
    then have lk: "look param code = ids" by (simp add: look_def)
    have e: "look [] code = []" by (simp add: look_def)
    from sets [rule_format, of code]
    have "set ids = (\<Union>(key, agg) \<in> set ?kept.
                      if attributeCode key = code then set (bucketKeys agg) else {})"
      unfolding lk e by simp
    moreover from pinv that have "distinct ids" by blast
    ultimately show ?thesis unfolding u by simp
  qed
  show "\<exists>param. attributeListParam rb = Inr param
         \<and> distinct (map fst param)
         \<and> fst ` set param =
             {attributeCode key | key agg. (key, agg) \<in> set aggs \<and> bucketKeys agg \<noteq> []}
         \<and> (\<forall>(code, ids) \<in> set param.
               distinct ids \<and>
               set ids = (\<Union>(key, agg) \<in> set aggs.
                           if attributeCode key = code then set (bucketKeys agg) else {}))"
  proof (intro exI conjI)
    show "attributeListParam rb = Inr param" using run r by simp
    show "\<forall>(code, ids) \<in> set param.
               distinct ids \<and>
               set ids = (\<Union>(key, agg) \<in> set aggs.
                           if attributeCode key = code then set (bucketKeys agg) else {})"
      using s by blast
  qed (rule dp k)+
next
  fix key
  show "attributeCode key = strip_suffix (strip_prefix key)"
    by (rule attributeCode_strip)
next
  show "attributeListParam (JObj [(''aggregations'', JObj color_aggregations)])
       = Inr [(''color'', [JStr ''red'', JStr ''blue'', JStr ''green''])]"
    by code_simp
qed

theorem enrichment_merges_buckets_witness:
  "readable color_aggregations
   \<and> (\<exists>param. attributeListParam (JObj [(''aggregations'', JObj color_aggregations)]) = Inr param
         \<and> fst ` set param = {''color''}
         \<and> (\<forall>(code, ids) \<in> set param.
               distinct ids \<and> set ids = {JStr ''red'', JStr ''blue'', JStr ''green''}))"
proof -
  have r: "readable color_aggregations" by code_simp
  have g: "getp (JObj [(''aggregations'', JObj color_aggregations)]) ''aggregations''
             = Inr (JObj color_aggregations)"
    by (simp add: getp_def property_def)
  have e: "attributeListParam (JObj [(''aggregations'', JObj color_aggregations)])
       = Inr [(''color'', [JStr ''red'', JStr ''blue'', JStr ''green''])]"
    using enrichment_merges_buckets [of "JObj [(''aggregations'', JObj color_aggregations)]"
        color_aggregations] by blast
  show ?thesis using r e by auto
qed

text \<open>
  Claim C8 holds of every input but those of the defect shown here. An aggregation with
  buckets whose attribute code is the name of a property every object inherits makes the
  enrichment raise: for \<^verbatim>\<open>agg_terms_constructor\<close> with the bucket \<^verbatim>\<open>x\<close> the code is
  \<^verbatim>\<open>constructor\<close>, \<^verbatim>\<open>acc['constructor']\<close> is the inherited function, and line 42
  raises a \<open>TypeError\<close> where the claim gives the code \<^verbatim>\<open>constructor\<close> the identifier
  \<^verbatim>\<open>x\<close>.
\<close>

theorem inherited_code_breaks_enrichment:
  "(getp rb ''aggregations'' = Inr (JObj aggs) \<and> readable aggs \<and>
    (\<exists>(key, agg) \<in> set aggs.
       bucketKeys agg \<noteq> [] \<and> attributeCode key \<in> set Object_prototype) \<longrightarrow>
      attributeListParam rb = Inl TypeError)
   \<and> attributeCode ''agg_terms_constructor'' = ''constructor''
   \<and> attributeListParam (JObj [(''aggregations'', JObj constructor_aggregations)])
       = Inl TypeError"
proof (intro conjI impI)
  assume a: "getp rb ''aggregations'' = Inr (JObj aggs) \<and> readable aggs \<and>
    (\<exists>(key, agg) \<in> set aggs.
       bucketKeys agg \<noteq> [] \<and> attributeCode key \<in> set Object_prototype)"
  let ?kept = "filter (\<lambda>(key, agg). bucketKeys agg \<noteq> []) aggs"
  have run: "attributeListParam rb = reduce_acc [] ?kept"
    using a by (simp add: attributeListParam_def filterM_e_has_buckets)
  have rk: "readable ?kept" using a by (simp add: readable_filter)
  have ex: "\<exists>(key, agg) \<in> set ?kept. attributeCode key \<in> set Object_prototype"
    using a by auto
  have "reduce_acc [] ?kept = Inl TypeError"
    by (rule reduce_acc_prototype [OF rk _ ex]) simp
  with run show "attributeListParam rb = Inl TypeError" by simp
next
  show "attributeCode ''agg_terms_constructor'' = ''constructor''"
    by code_simp
next
  show "attributeListParam (JObj [(''aggregations'', JObj constructor_aggregations)])
       = Inl TypeError"
    by code_simp
qed

theorem inherited_code_breaks_enrichment_witness:
  "readable constructor_aggregations
   \<and> bucketKeys (JObj [(''buckets'', JArr [bucket (JStr ''x'')])]) = [JStr ''x'']
   \<and> attributeListParam (JObj [(''aggregations'', JObj constructor_aggregations)])
       = Inl TypeError"
proof -
  have r: "readable constructor_aggregations" by code_simp
  have k: "bucketKeys (JObj [(''buckets'', JArr [bucket (JStr ''x'')])]) = [JStr ''x'']"
    by code_simp
  have g: "getp (JObj [(''aggregations'', JObj constructor_aggregations)]) ''aggregations''
             = Inr (JObj constructor_aggregations)"
    by (simp add: getp_def property_def)
  have c: "attributeCode ''agg_terms_constructor'' \<in> set Object_prototype"
    by code_simp
  have e: "\<exists>(key, agg) \<in> set constructor_aggregations.
       bucketKeys agg \<noteq> [] \<and> attributeCode key \<in> set Object_prototype"
    using k c by (simp add: constructor_aggregations_def)
  from inherited_code_breaks_enrichment
         [of "JObj [(''aggregations'', JObj constructor_aggregations)]"
             constructor_aggregations] g r e
  have "attributeListParam (JObj [(''aggregations'', JObj constructor_aggregations)])
       = Inl TypeError"
    by blast
  with r k show ?thesis by simp
qed

section \<open>Traces of the handler\<close>

lemma kinds_append [simp]: "kinds (xs @ ys) = kinds xs @ kinds ys"
  by (simp add: kinds_def)

lemma kinds_Cons [simp]: "kinds (e # t) = kind_of e # kinds t"
  by (simp add: kinds_def)

lemma kinds_Nil [simp]: "kinds [] = []"
  by (simp add: kinds_def)

lemma backendBodies_append [simp]:
  "backendBodies (xs @ ys) = backendBodies xs @ backendBodies ys"
  by (induction xs rule: backendBodies.induct) auto

lemma cacheKeys_append [simp]: "cacheKeys (xs @ ys) = cacheKeys xs @ cacheKeys ys"
  by (induction xs rule: cacheKeys.induct) auto

lemma responses_append [simp]: "responses (xs @ ys) = responses xs @ responses ys"
  by (induction xs rule: responses.induct) auto

lemma named_field_of_object:
  assumes "truthy (property v k)" and "\<exists>c \<in> set k. c \<notin> set ''0123456789''"
    and "k \<noteq> ''length''"
  shows "\<exists>fs x. v = JObj fs \<and> map_of fs k = Some x \<and> truthy x"
proof (cases v)
  case (JObj fs)
  with assms(1) show ?thesis
    by (auto simp: property_def split: option.splits if_splits)
next
  case (JArr xs)
  with assms show ?thesis by (simp add: property_def not_index)
next
  case (JStr s)
  with assms show ?thesis by (simp add: property_def not_index)
qed (use assms in \<open>simp_all add: property_def\<close>)

lemma has_hits_shape:
  assumes "has_hits resBody"
  shows "\<exists>fs hfs x. resBody = JObj fs \<and> map_of fs ''hits'' = Some (JObj hfs)
           \<and> map_of hfs ''hits'' = Some x \<and> truthy x"
proof -
  have e: "\<exists>c \<in> set ''hits''. c \<notin> set ''0123456789''" and l: "''hits'' \<noteq> ''length''"
    by simp_all
  from assms have t1: "truthy (property resBody ''hits'')"
    and t2: "truthy (property (property resBody ''hits'') ''hits'')"
    by (simp_all add: has_hits_def)
  from named_field_of_object [OF t1 e l] obtain fs h where
    fs: "resBody = JObj fs" "map_of fs ''hits'' = Some h" by blast
  then have ph: "property resBody ''hits'' = h" by (simp add: property_JObj)
  from named_field_of_object [OF t2 [unfolded ph] e l] obtain hfs x where
    "h = JObj hfs" "map_of hfs ''hits'' = Some x" "truthy x" by blast
  with fs show ?thesis by blast
qed

lemma has_hits_set_hits:
  assumes "has_hits resBody"
  shows "\<exists>rb. set_hits resBody result = Inr rb"
proof -
  from has_hits_shape [OF assms] obtain fs hfs where
    "resBody = JObj fs" "map_of fs ''hits'' = Some (JObj hfs)" by blast
  then show ?thesis
    by (simp add: set_hits_def getp_def setp_def property_JObj)
qed

lemma cacheStorageHandler_off:
  "\<not> (useOutputCache cfg \<and> cache env) \<Longrightarrow> cacheStorageHandler cfg env v h ts = []"
  by (auto simp: cacheStorageHandler_def)

lemma cacheStorageHandler_on:
  "useOutputCache cfg \<and> cache env \<Longrightarrow>
   cacheStorageHandler cfg env v h ts =
     [CacheSet (''api:'' @ h) v ts
        (case cache_set env (''api:'' @ h) v ts of Inl e \<Rightarrow> Some e | Inr u \<Rightarrow> None)]"
  by (simp add: cacheStorageHandler_def)

lemma cacheStorageHandler_keys:
  "set (cacheKeys (cacheStorageHandler cfg env v h ts)) \<subseteq> {''api:'' @ h}"
  by (auto simp: cacheStorageHandler_def split: sum.splits)

lemma cacheStorageHandler_bodies [simp]:
  "backendBodies (cacheStorageHandler cfg env v h ts) = []"
  by (auto simp: cacheStorageHandler_def split: sum.splits)

lemma respond_kinds: "set (kinds (respond n v)) \<subseteq> {KConsoleError, KResJson}"
  by (auto simp: respond_def split: sum.splits)

lemma respond_keys [simp]: "cacheKeys (respond n v) = []"
  by (auto simp: respond_def split: sum.splits)

lemma respond_bodies [simp]: "backendBodies (respond n v) = []"
  by (auto simp: respond_def split: sum.splits)

lemma enrichThenRespond_kinds:
  "set (kinds (enrichThenRespond env n rb)) \<subseteq> {KConsoleError, KAttributeList, KResJson}"
  using respond_kinds [of n]
  by (auto simp: enrichThenRespond_def split: sum.splits)

lemma respond_shapes: "kinds (respond n v) \<in> {[KConsoleError], [KResJson]}"
  by (auto simp: respond_def split: sum.splits)

lemma enrichThenRespond_shapes:
  "kinds (enrichThenRespond env n rb)
     \<in> {[KConsoleError], [KResJson], [KAttributeList, KConsoleError],
        [KAttributeList, KResJson]}"
  using respond_shapes [of n]
  by (auto simp: enrichThenRespond_def split: sum.splits)

lemma enrichThenRespond_keys [simp]: "cacheKeys (enrichThenRespond env n rb) = []"
  by (auto simp: enrichThenRespond_def split: sum.splits)

lemma enrichThenRespond_bodies [simp]: "backendBodies (enrichThenRespond env n rb) = []"
  by (auto simp: enrichThenRespond_def split: sum.splits)

lemma otherThen_bodies [simp]: "backendBodies (otherThen cfg env n resBody tags result) = []"
  by (auto simp: otherThen_def split: sum.splits)

lemma productThen_bodies [simp]: "backendBodies (productThen cfg env n resBody tags result) = []"
  by (auto simp: productThen_def split: sum.splits)

lemma otherThen_keys:
  "set (cacheKeys (otherThen cfg env n resBody tags result)) \<subseteq> {''api:'' @ reqHash n}"
  using cacheStorageHandler_keys [of cfg env _ "reqHash n" tags]
  by (auto simp: otherThen_def split: sum.splits)

lemma productThen_keys:
  "set (cacheKeys (productThen cfg env n resBody tags result)) \<subseteq> {''api:'' @ reqHash n}"
  using cacheStorageHandler_keys [of cfg env _ "reqHash n" tags]
  by (auto simp: productThen_def split: sum.splits)

lemma otherThen_keys_off:
  "\<not> (useOutputCache cfg \<and> cache env) \<Longrightarrow>
   cacheKeys (otherThen cfg env n resBody tags result) = []"
  by (auto simp: otherThen_def cacheStorageHandler_off split: sum.splits)

lemma productThen_keys_off:
  "\<not> (useOutputCache cfg \<and> cache env) \<Longrightarrow>
   cacheKeys (productThen cfg env n resBody tags result) = []"
  by (auto simp: productThen_def cacheStorageHandler_off split: sum.splits)

lemma dynamicRequestHandler_bodies:
  "backendBodies (dynamicRequestHandler cfg env req n) = [requestBody n]"
  by (auto simp: dynamicRequestHandler_def Let_def split: sum.splits option.splits)

lemma dynamicRequestHandler_keys:
  "set (cacheKeys (dynamicRequestHandler cfg env req n)) \<subseteq> {''api:'' @ reqHash n}"
  using otherThen_keys [of cfg env n] productThen_keys [of cfg env n]
  by (auto simp: dynamicRequestHandler_def Let_def split: sum.splits option.splits)

lemma dynamicRequestHandler_keys_off:
  "\<not> (useOutputCache cfg \<and> cache env) \<Longrightarrow>
   cacheKeys (dynamicRequestHandler cfg env req n) = []"
  by (auto simp: dynamicRequestHandler_def Let_def otherThen_keys_off productThen_keys_off
      split: sum.splits option.splits)

section \<open>The sample deployment, evaluated\<close>

lemma sample_normalizes:
  "normalizeRequest sample_config sample_env sample_request = Inr sample_normalized"
  by code_simp

lemma sample_resolves:
  "resolveProcessor sample_env ''product'' = Some (''product'', sample_process)"
  by (simp add: resolveProcessor_def sample_env_def)

lemma sample_has_hits: "has_hits sample_response"
  by code_simp

lemma sample_hits_read: "property (property sample_response ''hits'') ''hits'' = sample_hits"
  by (simp add: sample_response_def property_JObj)

lemma sample_tags:
  "computeTags sample_config sample_env ''product'' sample_hits = Inr [''product'', ''P7'', ''P9'']"
  by code_simp

section \<open>Order of the cache write\<close>

text \<open>
  Claim C1, as stated, fails on the sample request: the cache write comes before the
  attribute lookup, and its tags \<^verbatim>\<open>product\<close>, \<^verbatim>\<open>P7\<close>, \<^verbatim>\<open>P9\<close> are those of the two
  hits of the backend, while the processor returned one item only, whose tags are
  \<^verbatim>\<open>product\<close>, \<^verbatim>\<open>P7\<close>.
\<close>

theorem cache_write_order_counterexample:
  "map_sum id kinds (handler sample_config sample_env sample_request)
     = Inr [KCacheGet, KSetHeader, KConsoleLog, KBackendRequest, KProcess, KCacheSet,
            KAttributeList, KResJson]
   \<and> map_sum id cacheSetTags (handler sample_config sample_env sample_request)
     = Inr [[''product'', ''P7'', ''P9'']]
   \<and> getAdapter sample_env ''product'' = Some sample_process
   \<and> sample_process sample_hits (JNum 3) = Inr sample_processed
   \<and> computeTags sample_config sample_env ''product'' sample_processed
     = Inr [''product'', ''P7'']"
proof (intro conjI)
  show "map_sum id kinds (handler sample_config sample_env sample_request)
     = Inr [KCacheGet, KSetHeader, KConsoleLog, KBackendRequest, KProcess, KCacheSet,
            KAttributeList, KResJson]"
    by code_simp
  show "map_sum id cacheSetTags (handler sample_config sample_env sample_request)
     = Inr [[''product'', ''P7'', ''P9'']]"
    by code_simp
  show "getAdapter sample_env ''product'' = Some sample_process"
    by (simp add: sample_env_def)
  show "sample_process sample_hits (JNum 3) = Inr sample_processed"
    by (simp add: sample_process_def)
  show "computeTags sample_config sample_env ''product'' sample_processed
     = Inr [''product'', ''P7'']"
    by code_simp
qed

text \<open>
  Claim C1, amended. For a product request on the backend path with hits present, output
  caching enabled, tags that can be computed and a processor that succeeds, the handler
  calls the backend, then the processor, then writes the cache, and only then may look up
  attributes and respond: what follows the cache write is a response, or a logged failure,
  either one alone or after the attribute lookup. The tags written are computed from the
  hits as the backend returned them; the value written is the response body holding the
  processed items.
\<close>

theorem cache_write_follows_processor:
  "entityType n = ''product'' \<and> useOutputCache cfg \<and> cache env \<and>
   resBody = backend env (elasticBackendUrl n) (req_method req) (requestBody n) (auth n) \<and>
   has_hits resBody \<and> hits = property (property resBody ''hits'') ''hits'' \<and>
   computeTags cfg env ''product'' hits = Inr tags \<and>
   resolveProcessor env ''product'' = Some (name, process) \<and>
   process hits (groupId n) = Inr result \<longrightarrow>
   (\<exists>rb rest.
      set_hits resBody result = Inr rb \<and>
      dynamicRequestHandler cfg env req n =
        BackendRequest (elasticBackendUrl n) (req_method req) (requestBody n) (auth n) #
        Process name hits (groupId n) #
        CacheSet (''api:'' @ reqHash n) rb tags
          (case cache_set env (''api:'' @ reqHash n) rb tags of
             Inl e \<Rightarrow> Some e
           | Inr u \<Rightarrow> None) # rest \<and>
      set (kinds rest) \<subseteq> {KConsoleError, KAttributeList, KResJson} \<and>
      kinds rest \<in> {[KConsoleError], [KResJson], [KAttributeList, KConsoleError],
                    [KAttributeList, KResJson]})"
proof
  assume a: "entityType n = ''product'' \<and> useOutputCache cfg \<and> cache env \<and>
   resBody = backend env (elasticBackendUrl n) (req_method req) (requestBody n) (auth n) \<and>
   has_hits resBody \<and> hits = property (property resBody ''hits'') ''hits'' \<and>
   computeTags cfg env ''product'' hits = Inr tags \<and>
   resolveProcessor env ''product'' = Some (name, process) \<and>
   process hits (groupId n) = Inr result"
  then have et: "entityType n = ''product''"
    and on: "useOutputCache cfg \<and> cache env"
    and rd: "backend env (elasticBackendUrl n) (req_method req) (requestBody n) (auth n)
               = resBody"
    and hh: "has_hits resBody"
    and hd: "property (property resBody ''hits'') ''hits'' = hits"
    and ct: "computeTags cfg env ''product'' hits = Inr tags"
    and rp: "resolveProcessor env ''product'' = Some (name, process)"
    and pr: "process hits (groupId n) = Inr result"
    by blast+
  from has_hits_set_hits [OF hh, of result] obtain rb where
    rb: "set_hits resBody result = Inr rb" ..
  note cs = cacheStorageHandler_on [OF on, of rb "reqHash n" tags]
  let ?rest = "enrichThenRespond env n rb"
  have run: "dynamicRequestHandler cfg env req n =
        BackendRequest (elasticBackendUrl n) (req_method req) (requestBody n) (auth n) #
        Process name hits (groupId n) #
        CacheSet (''api:'' @ reqHash n) rb tags
          (case cache_set env (''api:'' @ reqHash n) rb tags of
             Inl e \<Rightarrow> Some e
           | Inr u \<Rightarrow> None) # ?rest"
    by (simp add: dynamicRequestHandler_def Let_def productThen_def et rd hh hd ct rp pr rb cs)
  note ks = enrichThenRespond_kinds [of env n rb]
  note sh = enrichThenRespond_shapes [of env n rb]
  from rb run ks sh show "\<exists>rb rest.
      set_hits resBody result = Inr rb \<and>
      dynamicRequestHandler cfg env req n =
        BackendRequest (elasticBackendUrl n) (req_method req) (requestBody n) (auth n) #
        Process name hits (groupId n) #
        CacheSet (''api:'' @ reqHash n) rb tags
          (case cache_set env (''api:'' @ reqHash n) rb tags of
             Inl e \<Rightarrow> Some e
           | Inr u \<Rightarrow> None) # rest \<and>
      set (kinds rest) \<subseteq> {KConsoleError, KAttributeList, KResJson} \<and>
      kinds rest \<in> {[KConsoleError], [KResJson], [KAttributeList, KConsoleError],
                    [KAttributeList, KResJson]}"
    by blast
qed

theorem cache_write_follows_processor_witness:
  "\<exists>rb rest.
      set_hits sample_response sample_processed = Inr rb \<and>
      dynamicRequestHandler sample_config sample_env sample_request sample_normalized =
        BackendRequest ''es/myindex/product'' ''GET'' (JObj []) JNull #
        Process ''product'' sample_hits (JNum 3) #
        CacheSet ''api:{}/myindex/product/_search'' rb [''product'', ''P7'', ''P9''] None #
        rest \<and>
      set (kinds rest) \<subseteq> {KConsoleError, KAttributeList, KResJson} \<and>
      kinds rest \<in> {[KConsoleError], [KResJson], [KAttributeList, KConsoleError],
                    [KAttributeList, KResJson]}"
proof -
  have c: "useOutputCache sample_config \<and> cache sample_env"
    by (simp add: sample_config_def sample_env_def)
  have b: "sample_response =
      backend sample_env (elasticBackendUrl sample_normalized) (req_method sample_request)
        (requestBody sample_normalized) (auth sample_normalized)"
    by (simp add: sample_env_def)
  have f: "entityType sample_normalized = ''product''"
    "groupId sample_normalized = JNum 3" "reqHash sample_normalized = ''{}/myindex/product/_search''"
    "elasticBackendUrl sample_normalized = ''es/myindex/product''"
    "requestBody sample_normalized = JObj []" "auth sample_normalized = JNull"
    "req_method sample_request = ''GET''"
    by (simp_all add: sample_normalized_def sample_request_def)
  have w: "cache_set sample_env k v ts = Inr ()" for k v ts
    by (simp add: sample_env_def)
  show ?thesis
    using cache_write_follows_processor [of sample_normalized sample_config sample_env
        sample_response sample_request sample_hits "[''product'', ''P7'', ''P9'']"
        "''product''" sample_process sample_processed]
      c b sample_has_hits sample_hits_read sample_tags sample_resolves
    by (simp add: f sample_process_def w)
qed

section \<open>Failure of the cache read\<close>

text \<open>
  Claim C2, as stated, fails on the sample request when the cache cannot be read: the
  failure is logged, no backend request is made and nothing is answered.
\<close>

theorem cache_read_failure_counterexample:
  "map_sum id kinds (handler sample_config cache_down_env sample_request)
     = Inr [KCacheGet, KConsoleError]
   \<and> map_sum id backendBodies (handler sample_config cache_down_env sample_request) = Inr []
   \<and> map_sum id responses (handler sample_config cache_down_env sample_request) = Inr []"
  by (intro conjI; code_simp)

text \<open>
  Claim C2, amended. With output caching enabled, a cache read that fails is logged and
  ends the handling of the request, without backend request and without response. A
  cache miss (the value \<^verbatim>\<open>null\<close>) sets the header and proceeds to the backend path,
  which sends one backend request; any other value read is a hit, answered from the cache
  without backend request. So only a read that succeeds with \<^verbatim>\<open>null\<close> proceeds to the
  backend call.
\<close>

theorem cache_read_failure_is_logged:
  "useOutputCache cfg \<and> cache env \<and> normalizeRequest cfg env req = Inr n \<longrightarrow>
     (\<exists>t. handler cfg env req = Inr t \<and>
        (cache_get env (''api:'' @ reqHash n) = Inl e \<longrightarrow>
           t = [CacheGet (''api:'' @ reqHash n), ConsoleError e] \<and>
           backendBodies t = [] \<and> responses t = []) \<and>
        (cache_get env (''api:'' @ reqHash n) = Inr JNull \<longrightarrow>
           t = CacheGet (''api:'' @ reqHash n) # SetHeader ''X-VS-Cache'' ''Miss'' #
               ConsoleLog # dynamicRequestHandler cfg env req n \<and>
           backendBodies t = [requestBody n]) \<and>
        (cache_get env (''api:'' @ reqHash n) = Inr v \<and> v \<noteq> JNull \<longrightarrow>
           t = [CacheGet (''api:'' @ reqHash n), SetHeader ''X-VS-Cache'' ''Hit'',
                ResJson v, ConsoleLog] \<and>
           backendBodies t = [] \<and> responses t = [v]))"
proof
  assume "useOutputCache cfg \<and> cache env \<and> normalizeRequest cfg env req = Inr n"
  then have on: "useOutputCache cfg \<and> cache env"
    and nr: "normalizeRequest cfg env req = Inr n"
    by blast+
  let ?key = "''api:'' @ reqHash n"
  let ?t = "CacheGet ?key #
      (case cache_get env ?key of
         Inl e \<Rightarrow> [ConsoleError e]
       | Inr v \<Rightarrow>
           if v \<noteq> JNull then [SetHeader ''X-VS-Cache'' ''Hit'', ResJson v, ConsoleLog]
           else SetHeader ''X-VS-Cache'' ''Miss'' # ConsoleLog #
                  dynamicRequestHandler cfg env req n)"
  have run: "handler cfg env req = Inr ?t"
    using on by (simp add: handler_def nr)
  have failed: "?t = [CacheGet ?key, ConsoleError e] \<and> backendBodies ?t = [] \<and> responses ?t = []"
    if "cache_get env ?key = Inl e"
    using that by simp
  have missed: "?t = CacheGet ?key # SetHeader ''X-VS-Cache'' ''Miss'' # ConsoleLog #
                  dynamicRequestHandler cfg env req n \<and>
                backendBodies ?t = [requestBody n]"
    if "cache_get env ?key = Inr JNull"
    using that by (simp add: dynamicRequestHandler_bodies)
  have hit: "?t = [CacheGet ?key, SetHeader ''X-VS-Cache'' ''Hit'', ResJson v, ConsoleLog] \<and>
             backendBodies ?t = [] \<and> responses ?t = [v]"
    if "cache_get env ?key = Inr v \<and> v \<noteq> JNull"
    using that by simp
  from run failed missed hit
  show "\<exists>t. handler cfg env req = Inr t \<and>
        (cache_get env ?key = Inl e \<longrightarrow>
           t = [CacheGet ?key, ConsoleError e] \<and>
           backendBodies t = [] \<and> responses t = []) \<and>
        (cache_get env ?key = Inr JNull \<longrightarrow>
           t = CacheGet ?key # SetHeader ''X-VS-Cache'' ''Miss'' #
               ConsoleLog # dynamicRequestHandler cfg env req n \<and>
           backendBodies t = [requestBody n]) \<and>
        (cache_get env ?key = Inr v \<and> v \<noteq> JNull \<longrightarrow>
           t = [CacheGet ?key, SetHeader ''X-VS-Cache'' ''Hit'', ResJson v, ConsoleLog] \<and>
           backendBodies t = [] \<and> responses t = [v])"
    by blast
qed

theorem cache_read_failure_is_logged_witness:
  "handler sample_config cache_down_env sample_request =
     Inr [CacheGet ''api:{}/myindex/product/_search'',
          ConsoleError (Failure ''cache store unavailable'')]
   \<and> handler sample_config sample_env sample_request =
     Inr (CacheGet ''api:{}/myindex/product/_search'' # SetHeader ''X-VS-Cache'' ''Miss'' #
          ConsoleLog #
          dynamicRequestHandler sample_config sample_env sample_request sample_normalized)
   \<and> handler sample_config cache_hit_env sample_request =
     Inr [CacheGet ''api:{}/myindex/product/_search'', SetHeader ''X-VS-Cache'' ''Hit'',
          ResJson (JStr ''cached''), ConsoleLog]"
proof -
  have n: "normalizeRequest sample_config cache_down_env sample_request = Inr sample_normalized"
    "normalizeRequest sample_config cache_hit_env sample_request = Inr sample_normalized"
    by code_simp+
  have c: "useOutputCache sample_config" "cache cache_down_env" "cache sample_env"
    "cache cache_hit_env"
    by (simp_all add: sample_config_def sample_env_def cache_down_env_def cache_hit_env_def)
  have g: "cache_get cache_down_env (''api:'' @ reqHash sample_normalized)
             = Inl (Failure ''cache store unavailable'')"
    "cache_get sample_env (''api:'' @ reqHash sample_normalized) = Inr JNull"
    "cache_get cache_hit_env (''api:'' @ reqHash sample_normalized) = Inr (JStr ''cached'')"
    by (simp_all add: sample_env_def cache_down_env_def cache_hit_env_def)
  have h: "reqHash sample_normalized = ''{}/myindex/product/_search''"
    by (simp add: sample_normalized_def)
  from cache_read_failure_is_logged [of sample_config cache_down_env sample_request
        sample_normalized "Failure ''cache store unavailable''"] n c g
  have down: "handler sample_config cache_down_env sample_request =
     Inr [CacheGet (''api:'' @ reqHash sample_normalized),
          ConsoleError (Failure ''cache store unavailable'')]"
    by auto
  from cache_read_failure_is_logged [of sample_config sample_env sample_request
        sample_normalized] sample_normalizes c g
  have miss: "handler sample_config sample_env sample_request =
     Inr (CacheGet (''api:'' @ reqHash sample_normalized) # SetHeader ''X-VS-Cache'' ''Miss'' #
          ConsoleLog #
          dynamicRequestHandler sample_config sample_env sample_request sample_normalized)"
    by auto
  from cache_read_failure_is_logged [of sample_config cache_hit_env sample_request
        sample_normalized _ "JStr ''cached''"] n c g
  have hit: "handler sample_config cache_hit_env sample_request =
     Inr [CacheGet (''api:'' @ reqHash sample_normalized), SetHeader ''X-VS-Cache'' ''Hit'',
          ResJson (JStr ''cached''), ConsoleLog]"
    by auto
  from down miss hit show ?thesis unfolding h by simp
qed

section \<open>Failure of the attribute lookup\<close>

lemma cacheStorageHandler_responses [simp]:
  "responses (cacheStorageHandler cfg env v h ts) = []"
  by (auto simp: cacheStorageHandler_def split: sum.splits)

lemma set_hits_keeps:
  assumes "has_hits resBody" and "set_hits resBody result = Inr rb" and "k \<noteq> ''hits''"
  shows "getp rb k = getp resBody k"
proof -
  from has_hits_shape [OF assms(1)] obtain fs hfs where
    s: "resBody = JObj fs" "map_of fs ''hits'' = Some (JObj hfs)" by blast
  with assms(2) have "rb = JObj (AList.update ''hits'' (JObj (AList.update ''hits'' result hfs)) fs)"
    by (simp add: set_hits_def getp_def setp_def property_JObj)
  with s assms(3) show ?thesis
    by (simp add: getp_def property_JObj update_conv')
qed

lemma set_hits_aggregations:
  assumes "has_hits resBody" and "set_hits resBody result = Inr rb"
  shows "property rb ''aggregations'' = property resBody ''aggregations''"
    and "attributeListParam rb = attributeListParam resBody"
proof -
  have "getp rb ''aggregations'' = getp resBody ''aggregations''"
    using assms by (rule set_hits_keeps) simp
  moreover from has_hits_shape [OF assms(1)] have "\<not> nullish resBody" by auto
  moreover from has_hits_shape [OF assms(1)] assms(2) have "\<not> nullish rb"
    by (auto simp: set_hits_def getp_def setp_def property_JObj)
  ultimately show "property rb ''aggregations'' = property resBody ''aggregations''"
    and "attributeListParam rb = attributeListParam resBody"
    by (simp_all add: getp_def attributeListParam_def)
qed

text \<open>
  Claim C3, as stated, fails on the sample request when the attribute service fails: the
  failure is logged after the cache write and the lookup, and nothing is answered.
\<close>

theorem lookup_failure_counterexample:
  "map_sum id kinds (handler sample_config lookup_down_env sample_request)
     = Inr [KCacheGet, KSetHeader, KConsoleLog, KBackendRequest, KProcess, KCacheSet,
            KAttributeList, KConsoleError]
   \<and> map_sum id responses (handler sample_config lookup_down_env sample_request) = Inr []"
  by (intro conjI; code_simp)

text \<open>
  Claim C3, amended. For a product request on the backend path whose response has hits
  and aggregations, with tags that can be computed and a processor that succeeds, a
  failure of the attribute lookup is caught and logged: the handler calls the backend and
  the processor, writes the cache when caching is enabled, calls the attribute service,
  logs its failure, and sends no response, neither the result nor an error. The cache
  write is not undone; whether it was rejected is recorded with it, and the log of such a
  rejection comes at a time of its own, after the call of the attribute service.
\<close>

theorem lookup_failure_is_logged:
  "entityType n = ''product'' \<and>
   resBody = backend env (elasticBackendUrl n) (req_method req) (requestBody n) (auth n) \<and>
   has_hits resBody \<and> hits = property (property resBody ''hits'') ''hits'' \<and>
   computeTags cfg env ''product'' hits = Inr tags \<and>
   resolveProcessor env ''product'' = Some (name, process) \<and>
   process hits (groupId n) = Inr result \<and>
   truthy (property resBody ''aggregations'') \<and>
   attributeListParam resBody = Inr param \<and>
   AttributeService_list env param (indexName n) = Inl e \<longrightarrow>
   (\<exists>rb. set_hits resBody result = Inr rb \<and>
      dynamicRequestHandler cfg env req n =
        [BackendRequest (elasticBackendUrl n) (req_method req) (requestBody n) (auth n),
         Process name hits (groupId n)] @
        cacheStorageHandler cfg env rb (reqHash n) tags @
        [AttributeList param (indexName n), ConsoleError e])
   \<and> responses (dynamicRequestHandler cfg env req n) = []"
proof
  assume "entityType n = ''product'' \<and>
   resBody = backend env (elasticBackendUrl n) (req_method req) (requestBody n) (auth n) \<and>
   has_hits resBody \<and> hits = property (property resBody ''hits'') ''hits'' \<and>
   computeTags cfg env ''product'' hits = Inr tags \<and>
   resolveProcessor env ''product'' = Some (name, process) \<and>
   process hits (groupId n) = Inr result \<and>
   truthy (property resBody ''aggregations'') \<and>
   attributeListParam resBody = Inr param \<and>
   AttributeService_list env param (indexName n) = Inl e"
  then have et: "entityType n = ''product''"
    and rd: "backend env (elasticBackendUrl n) (req_method req) (requestBody n) (auth n)
               = resBody"
    and hh: "has_hits resBody"
    and hd: "property (property resBody ''hits'') ''hits'' = hits"
    and ct: "computeTags cfg env ''product'' hits = Inr tags"
    and rp: "resolveProcessor env ''product'' = Some (name, process)"
    and pr: "process hits (groupId n) = Inr result"
    and ag: "truthy (property resBody ''aggregations'')"
    and ap: "attributeListParam resBody = Inr param"
    and fl: "AttributeService_list env param (indexName n) = Inl e"
    by blast+
  from has_hits_set_hits [OF hh, of result] obtain rb where
    rb: "set_hits resBody result = Inr rb" ..
  note keep = set_hits_aggregations [OF hh rb]
  have en: "enrichThenRespond env n rb = [AttributeList param (indexName n), ConsoleError e]"
    by (simp add: enrichThenRespond_def keep ag ap fl)
  have run: "dynamicRequestHandler cfg env req n =
        [BackendRequest (elasticBackendUrl n) (req_method req) (requestBody n) (auth n),
         Process name hits (groupId n)] @
        cacheStorageHandler cfg env rb (reqHash n) tags @
        [AttributeList param (indexName n), ConsoleError e]"
    by (simp add: dynamicRequestHandler_def Let_def productThen_def et rd hh hd ct rp pr rb en)
  have "responses (dynamicRequestHandler cfg env req n) = []"
    unfolding run by simp
  with rb run show "(\<exists>rb. set_hits resBody result = Inr rb \<and>
      dynamicRequestHandler cfg env req n =
        [BackendRequest (elasticBackendUrl n) (req_method req) (requestBody n) (auth n),
         Process name hits (groupId n)] @
        cacheStorageHandler cfg env rb (reqHash n) tags @
        [AttributeList param (indexName n), ConsoleError e])
   \<and> responses (dynamicRequestHandler cfg env req n) = []"
    by blast
qed

theorem lookup_failure_is_logged_witness:
  "kinds (dynamicRequestHandler sample_config lookup_down_env sample_request sample_normalized)
     = [KBackendRequest, KProcess, KCacheSet, KAttributeList, KConsoleError]
   \<and> responses (dynamicRequestHandler sample_config lookup_down_env sample_request
        sample_normalized) = []"
proof -
  have b: "sample_response =
      backend lookup_down_env (elasticBackendUrl sample_normalized) (req_method sample_request)
        (requestBody sample_normalized) (auth sample_normalized)"
    by (simp add: sample_env_def lookup_down_env_def)
  have f: "entityType sample_normalized = ''product''"
    "groupId sample_normalized = JNum 3" "indexName sample_normalized = ''myindex''"
    by (simp_all add: sample_normalized_def)
  have t: "computeTags sample_config lookup_down_env ''product'' sample_hits
             = Inr [''product'', ''P7'', ''P9'']"
    by code_simp
  have r: "resolveProcessor lookup_down_env ''product''
             = Some (''product'', sample_process)"
    by (simp add: resolveProcessor_def sample_env_def lookup_down_env_def)
  have a: "truthy (property sample_response ''aggregations'')" by code_simp
  have p: "attributeListParam sample_response = Inr [(''color'', [JStr ''red''])]"
    by code_simp
  have l: "AttributeService_list lookup_down_env [(''color'', [JStr ''red''])] ''myindex''
             = Inl (Failure ''attribute lookup failed'')"
    by (simp add: lookup_down_env_def)
  have c: "kinds (cacheStorageHandler sample_config lookup_down_env rb h ts) = [KCacheSet]"
    for rb h ts
    by (simp add: cacheStorageHandler_def sample_config_def sample_env_def lookup_down_env_def)
  from lookup_failure_is_logged [of sample_normalized sample_response lookup_down_env
        sample_request sample_hits sample_config "[''product'', ''P7'', ''P9'']"
        "''product''" sample_process sample_processed
        "[(''color'', [JStr ''red''])]" "Failure ''attribute lookup failed''"]
      b sample_has_hits sample_hits_read t r a p l
  show ?thesis
    by (auto simp: f c sample_process_def)
qed

section \<open>The end-to-end request with the cache disabled\<close>

lemma string_length: "property (JStr s) ''length'' = JNum (int (length s))"
proof -
  have e: "\<exists>c \<in> set ''length''. c \<notin> set ''0123456789''" by simp
  show ?thesis by (simp add: property_def not_index [OF e])
qed

lemma delp_not_nullish:
  "\<not> nullish v \<Longrightarrow> \<exists>v'. delp v k = Inr v' \<and> \<not> nullish v'"
  by (cases v) (auto simp: delp_def)

text \<open>
  Claim C4, as stated, fails: the URL \<^verbatim>\<open>/myindex/product_search?response_format=compact\<close>
  does not pass validation. Its last segment does not begin with \<^verbatim>\<open>_search\<close>, so the
  handler throws before any backend call.
\<close>

theorem claimed_url_counterexample:
  "handler cache_off_config sample_env claimed_request
     = Inl (Error ''Please do use following URL format: /api/catalog/<index_name>/_search'')"
  by code_simp

text \<open>
  Claim C4, amended. A GET request to \<^verbatim>\<open>/myindex/product/_search?response_format=compact\<close>,
  the search operation being a segment of its own, with \<^verbatim>\<open>myindex\<close> allowed, a group
  token that the decoder accepts and output caching disabled, passes validation with index
  \<^verbatim>\<open>myindex\<close>, entity type \<^verbatim>\<open>product\<close> and format \<^verbatim>\<open>compact\<close>, asks the cache for
  nothing, writes nothing to it, and calls the backend exactly once.
\<close>

theorem cache_disabled_end_to_end:
  "req_method req = ''GET'' \<and>
   url req = ''/myindex/product/_search?response_format=compact'' \<and>
   query_request req = JUndefined \<and> query_request_format req = JUndefined \<and>
   query_response_format req = JStr ''compact'' \<and>
   ''myindex'' \<in> set (indices cfg) \<and> \<not> useOutputCache cfg \<and>
   property (body req) ''groupToken'' = JStr token \<and> 10 < length token \<and>
   jwt_decode env (JStr token)
     (if truthy (authHashSecret cfg) then authHashSecret cfg else objHashSecret cfg)
     = Inr payload \<and> \<not> nullish payload \<longrightarrow>
   (\<exists>n t. normalizeRequest cfg env req = Inr n \<and> indexName n = ''myindex'' \<and>
      entityType n = ''product'' \<and> responseFormat n = JStr ''compact'' \<and>
      handler cfg env req = Inr t \<and> cacheKeys t = [] \<and> length (backendBodies t) = 1)"
proof
  assume "req_method req = ''GET'' \<and>
   url req = ''/myindex/product/_search?response_format=compact'' \<and>
   query_request req = JUndefined \<and> query_request_format req = JUndefined \<and>
   query_response_format req = JStr ''compact'' \<and>
   ''myindex'' \<in> set (indices cfg) \<and> \<not> useOutputCache cfg \<and>
   property (body req) ''groupToken'' = JStr token \<and> 10 < length token \<and>
   jwt_decode env (JStr token)
     (if truthy (authHashSecret cfg) then authHashSecret cfg else objHashSecret cfg)
     = Inr payload \<and> \<not> nullish payload"
  then have m: "req_method req = ''GET''"
    and u: "url req = ''/myindex/product/_search?response_format=compact''"
    and q: "query_request req = JUndefined" "query_request_format req = JUndefined"
      "query_response_format req = JStr ''compact''"
    and ix: "''myindex'' \<in> set (indices cfg)"
    and off: "\<not> useOutputCache cfg"
    and tk: "property (body req) ''groupToken'' = JStr token"
    and ln: "10 < length token"
    and dc: "jwt_decode env (JStr token)
       (if truthy (authHashSecret cfg) then authHashSecret cfg else objHashSecret cfg)
       = Inr payload"
    and pl: "\<not> nullish payload"
    by blast+
  have pb: "parseRequestBody env req = Inr (body req)"
    by (simp add: parseRequestBody_def readBody_def m q)
  have pu: "parseUrl cfg req = Inr (''myindex'', ''product'')"
    using ix by (simp add: parseUrl_def u array_indexOf_neg)
  have nb: "\<not> nullish (body req)"
    using tk by (cases "body req") (auto simp: property_def)
  from delp_not_nullish [OF nb, of "''groupToken''"] obtain b1 where
    b1: "delp (body req) ''groupToken'' = Inr b1" "\<not> nullish b1" by blast
  from delp_not_nullish [OF b1(2), of "''groupId''"] obtain b2 where
    b2: "delp b1 ''groupId'' = Inr b2" by blast
  have ne: "token \<noteq> []" using ln by auto
  let ?g = "if truthy (property payload ''group_id'') then property payload ''group_id''
            else JNull"
  have eg: "extractGroupId cfg env (body req) = Inr (?g, b2)"
    using ln
    by (simp add: extractGroupId_def getp_def nb tk ne string_length gt10_def dc pl b1 b2)
  let ?n = "\<lparr> requestBody = b2, responseFormat = JStr ''compact'', indexName = ''myindex'',
              entityType = ''product'',
              elasticBackendUrl = adjustBackendProxyUrl env req ''myindex'' ''product'' cfg,
              groupId = ?g,
              auth = (if truthy (user cfg) \<or> truthy (password cfg)
                      then JObj [(''user'', user cfg), (''pass'', password cfg)]
                      else JNull),
              reqHash = sha3_224 env (JSON_stringify env b2 @ url req) \<rparr>"
  have nr: "normalizeRequest cfg env req = Inr ?n"
    by (simp add: normalizeRequest_def m pb pu eg q)
  have h: "handler cfg env req = Inr (dynamicRequestHandler cfg env req ?n)"
    by (simp add: handler_def nr off)
  have k: "cacheKeys (dynamicRequestHandler cfg env req ?n) = []"
    using off by (intro dynamicRequestHandler_keys_off) simp
  have b: "length (backendBodies (dynamicRequestHandler cfg env req ?n)) = 1"
    by (simp add: dynamicRequestHandler_bodies)
  show "\<exists>n t. normalizeRequest cfg env req = Inr n \<and> indexName n = ''myindex'' \<and>
      entityType n = ''product'' \<and> responseFormat n = JStr ''compact'' \<and>
      handler cfg env req = Inr t \<and> cacheKeys t = [] \<and> length (backendBodies t) = 1"
    using nr h k b by (intro exI [of _ ?n] exI [of _ "dynamicRequestHandler cfg env req ?n"]) simp
qed

theorem cache_disabled_end_to_end_witness:
  "\<exists>n t. normalizeRequest cache_off_config sample_env compact_request = Inr n \<and>
      indexName n = ''myindex'' \<and> entityType n = ''product'' \<and>
      responseFormat n = JStr ''compact'' \<and>
      handler cache_off_config sample_env compact_request = Inr t \<and>
      cacheKeys t = [] \<and> length (backendBodies t) = 1"
  using cache_disabled_end_to_end [of compact_request cache_off_config
      "''valid.group.token''" sample_env "JObj [(''group_id'', JNum 3)]"]
  by (simp add: compact_request_def cache_off_config_def sample_request_def sample_config_def
      sample_env_def property_JObj)

section \<open>The personalization fields\<close>





lemma handler_trace:
  assumes "normalizeRequest cfg env req = Inr n"
  shows "\<exists>t. handler cfg env req = Inr t
           \<and> set (cacheKeys t) \<subseteq> {''api:'' @ reqHash n}
           \<and> backendBodies t =
               (if useOutputCache cfg \<and> cache env \<and>
                   cache_get env (''api:'' @ reqHash n) \<noteq> Inr JNull
                then [] else [requestBody n])"
proof -
  note k = dynamicRequestHandler_keys [of cfg env req n]
  note b = dynamicRequestHandler_bodies [of cfg env req n]
  show ?thesis
  proof (cases "useOutputCache cfg \<and> cache env")
    case False
    then have "handler cfg env req = Inr (dynamicRequestHandler cfg env req n)"
      using assms by (auto simp: handler_def)
    with k b False show ?thesis by auto
  next
    case True
    show ?thesis
    proof (cases "cache_get env (''api:'' @ reqHash n)")
      case (Inl e)
      with True assms show ?thesis by (simp add: handler_def)
    next
      case (Inr out)
      with True assms k b show ?thesis by (simp add: handler_def)
    qed
  qed
qed






section \<open>A GET request without request parameter\<close>

text \<open>
  Claim C6, as stated, fails: a GET request without \<^verbatim>\<open>request\<close> parameter whose
  \<^verbatim>\<open>req.body\<close> is \<^verbatim>\<open>{size: 5}\<close> proceeds with that body, which is what the backend
  receives, and not with an empty body.
\<close>

theorem absent_request_parameter_counterexample:
  "req_method body_request = ''GET'' \<and> query_request body_request = JUndefined
   \<and> map_sum id backendBodies (handler sample_config sample_env body_request)
       = Inr [JObj [(''size'', JNum 5)]]"
  by (intro conjI; code_simp)

text \<open>
  Claim C6, amended. For a GET request without \<^verbatim>\<open>request\<close> parameter the absence is not
  an error: the body is \<^verbatim>\<open>req.body\<close> as the transport delivered it (translated when
  translation is asked for). When that body is the empty object, no translation is asked
  for and the URL is valid, normalization succeeds on the empty body with no group
  identifier, the fingerprint is that of the empty body and the URL, and on the backend
  path (cache disabled or missed) the backend receives the empty body.
\<close>

theorem absent_request_parameter:
  "(req_method req = ''GET'' \<and> \<not> truthy (query_request req) \<longrightarrow>
      parseRequestBody env req =
        (if query_request_format req = JStr ''search-query''
         then buildQueryBodyFromSearchQuery env (body req)
         else Inr (body req)))
   \<and> (req_method req = ''GET'' \<and> \<not> truthy (query_request req) \<and>
      query_request_format req \<noteq> JStr ''search-query'' \<and> body req = JObj [] \<and>
      parseUrl cfg req = Inr (index, entity) \<longrightarrow>
      (\<exists>n t. normalizeRequest cfg env req = Inr n \<and> requestBody n = JObj [] \<and>
         groupId n = JNull \<and>
         reqHash n = sha3_224 env (JSON_stringify env (JObj []) @ url req) \<and>
         handler cfg env req = Inr t \<and>
         (\<not> (useOutputCache cfg \<and> cache env) \<or>
          cache_get env (''api:'' @ reqHash n) = Inr JNull \<longrightarrow>
            backendBodies t = [JObj []])))"
proof (intro conjI impI)
  assume "req_method req = ''GET'' \<and> \<not> truthy (query_request req)"
  then show "parseRequestBody env req =
        (if query_request_format req = JStr ''search-query''
         then buildQueryBodyFromSearchQuery env (body req)
         else Inr (body req))"
    by (simp add: parseRequestBody_def readBody_def)
next
  assume "req_method req = ''GET'' \<and> \<not> truthy (query_request req) \<and>
      query_request_format req \<noteq> JStr ''search-query'' \<and> body req = JObj [] \<and>
      parseUrl cfg req = Inr (index, entity)"
  then have m: "req_method req = ''GET''" and q: "\<not> truthy (query_request req)"
    and f: "query_request_format req \<noteq> JStr ''search-query''"
    and b: "body req = JObj []" and pu: "parseUrl cfg req = Inr (index, entity)"
    by blast+
  have pb: "parseRequestBody env req = Inr (JObj [])"
    by (simp add: parseRequestBody_def readBody_def m q f b)
  have eg: "extractGroupId cfg env (JObj []) = Inr (JNull, JObj [])"
    by (simp add: extractGroupId_def getp_def property_JObj delp_def)
  let ?n = "\<lparr> requestBody = JObj [],
              responseFormat =
                (if truthy (query_response_format req) then query_response_format req
                 else JStr ''standard''),
              indexName = index, entityType = entity,
              elasticBackendUrl = adjustBackendProxyUrl env req index entity cfg,
              groupId = JNull,
              auth = (if truthy (user cfg) \<or> truthy (password cfg)
                      then JObj [(''user'', user cfg), (''pass'', password cfg)]
                      else JNull),
              reqHash = sha3_224 env (JSON_stringify env (JObj []) @ url req) \<rparr>"
  have nr: "normalizeRequest cfg env req = Inr ?n"
    by (simp add: normalizeRequest_def m pb pu eg)
  from handler_trace [OF nr] obtain t where
    t: "handler cfg env req = Inr t"
      "backendBodies t =
               (if useOutputCache cfg \<and> cache env \<and>
                   cache_get env (''api:'' @ reqHash ?n) \<noteq> Inr JNull
                then [] else [requestBody ?n])"
    by blast
  have "\<not> (useOutputCache cfg \<and> cache env) \<or>
          cache_get env (''api:'' @ reqHash ?n) = Inr JNull \<longrightarrow>
            backendBodies t = [JObj []]"
    unfolding t(2) by auto
  with nr t(1) show "\<exists>n t. normalizeRequest cfg env req = Inr n \<and> requestBody n = JObj [] \<and>
         groupId n = JNull \<and>
         reqHash n = sha3_224 env (JSON_stringify env (JObj []) @ url req) \<and>
         handler cfg env req = Inr t \<and>
         (\<not> (useOutputCache cfg \<and> cache env) \<or>
          cache_get env (''api:'' @ reqHash n) = Inr JNull \<longrightarrow>
            backendBodies t = [JObj []])"
    by (intro exI [of _ ?n] exI [of _ t]) simp
qed

theorem absent_request_parameter_witness:
  "parseRequestBody sample_env body_request = Inr (JObj [(''size'', JNum 5)])
   \<and> (\<exists>n t. normalizeRequest sample_config sample_env empty_request = Inr n \<and>
         requestBody n = JObj [] \<and> groupId n = JNull \<and>
         reqHash n = ''{}/myindex/product/_search'' \<and>
         handler sample_config sample_env empty_request = Inr t \<and>
         backendBodies t = [JObj []])"
proof -
  have g: "req_method body_request = ''GET''" "\<not> truthy (query_request body_request)"
    "query_request_format body_request \<noteq> JStr ''search-query''"
    "body body_request = JObj [(''size'', JNum 5)]"
    "req_method empty_request = ''GET''" "\<not> truthy (query_request empty_request)"
    "query_request_format empty_request \<noteq> JStr ''search-query''"
    "body empty_request = JObj []" "url empty_request = ''/myindex/product/_search''"
    by (simp_all add: body_request_def empty_request_def sample_request_def)
  have pu: "parseUrl sample_config empty_request = Inr (''myindex'', ''product'')"
    by code_simp
  have c: "cache_get sample_env k = Inr JNull" "sha3_224 sample_env s = s"
    "JSON_stringify sample_env (JObj []) = ''{}''" for k s
    by (simp_all add: sample_env_def)
  show ?thesis
    using absent_request_parameter [of body_request sample_env sample_config]
      absent_request_parameter [of empty_request sample_env sample_config
        "''myindex''" "''product''"] pu
    by (simp add: g c)
qed

end
